theory Spec2Isabelle
  imports Main
begin

section \<open>Strings, configuration and the environment\<close>

text \<open>
  A Python \<open>str\<close> is a sequence of Unicode code points and \<open>len\<close> counts code points, so a
  string is a list of code points. ASCII literals are written through \<open>ascii\<close>.
\<close>

type_synonym pystr = "nat list"

definition ascii :: "string \<Rightarrow> pystr" where
  "ascii cs = map of_char cs"

text \<open>Decimal rendering of an integer inside an f-string.\<close>

fun str_nat :: "nat \<Rightarrow> pystr" where
  "str_nat n = (if n < 10 then [48 + n] else str_nat (n div 10) @ [48 + n mod 10])"

declare str_nat.simps [simp del]

definition str_int :: "int \<Rightarrow> pystr" where
  "str_int i = (if i < 0 then 45 # str_nat (nat (- i)) else str_nat (nat i))"

text \<open>An exception caught by \<open>except Exception as e\<close>; the payload is \<open>str(e)\<close>.\<close>

datatype exn = Exception pystr

fun str_exn :: "exn \<Rightarrow> pystr" where
  "str_exn (Exception m) = m"

text \<open>The module-level configuration read from the process environment.\<close>

record config =
  RSS_URLS :: "pystr list"
  CHECK_INTERVAL :: int
  CHANNEL_ID :: pystr
  YANDEX_API_KEY :: "pystr option"
  YANDEX_FOLDER_ID :: pystr
  DISABLE_YAGPT :: bool

text \<open>
  A feed entry: \<open>hasattr(entry, 'title')\<close> is \<open>title e \<noteq> None\<close>. The fields that
  \<open>feedparser\<close> delivers are strings.
\<close>

record entry =
  title :: "pystr option"
  description :: "pystr option"
  link :: "pystr option"

text \<open>
  A value decoded by \<open>json.loads\<close>: \<open>None\<close>, a \<open>bool\<close>, an \<open>int\<close>, a \<open>float\<close>, a \<open>str\<close>, a
  \<open>list\<close> or a \<open>dict\<close>. Of a \<open>float\<close> the code only ever asks whether it is zero, so the
  flag of \<open>JFloat\<close> says that it is not. The pairs of a \<open>JObj\<close> are those of the JSON text,
  in its order; a key that is repeated counts once in the \<open>dict\<close>.
\<close>

datatype jval =
    JNull
  | JBool bool
  | JNum int
  | JFloat bool
  | JStr pystr
  | JArr "jval list"
  | JObj "(pystr \<times> jval) list"

text \<open>
  What \<open>json.loads\<close> gives for a text that begins with an opening brace: a
  \<open>JSONDecodeError\<close>, another exception (a \<open>RecursionError\<close> for a deeply nested
  text, a \<open>ValueError\<close> for an integer with too many digits), or the decoded object.
\<close>

datatype decode_outcome =
    JSONDecodeError exn
  | DecodeRaises exn
  | Decoded "pystr \<rightharpoonup> jval"

text \<open>
  What \<open>requests.post\<close>, \<open>raise_for_status\<close>, \<open>response.json()\<close> and the extraction of
  \<open>result['result']['alternatives'][0]['message']['text']\<close> give together: a
  \<open>RequestException\<close>, any other exception, or the text of the reply, a string. A reply
  whose text is not a string raises at \<open>result_text.find\<close>, which only the handler of
  \<open>Exception\<close> catches: it is an \<open>OtherException\<close>.
\<close>

datatype http_outcome =
    RequestException pystr
  | OtherException pystr
  | ResponseText pystr

text \<open>
  The collaborators of the worker. Every call of a library or of the outside world is
  answered by the world: the first argument of an answer is the number of external calls
  made so far, so two calls with the same arguments may be answered differently. The two
  flags of the controller are written by the command thread; the worker sees them as
  functions of the time at which it reads them. The decoder \<open>json.loads\<close> and the text
  that an f-string puts for a value that is not a string (\<open>py_repr\<close>: Python's \<open>repr\<close> of a
  list or a dict, or the \<open>RecursionError\<close> of one that is nested too deeply) depend on
  their argument alone. For \<open>render_image\<close> see \<open>generate_image\<close> below.
\<close>

record world =
  stop_is_set :: "nat \<Rightarrow> bool"
  running_at :: "nat \<Rightarrow> bool"
  latency :: "nat \<Rightarrow> nat"
  loop_fault :: "nat \<Rightarrow> exn option"
  feedparser_parse :: "nat \<Rightarrow> pystr \<Rightarrow> exn + entry list"
  requests_post :: "nat \<Rightarrow> pystr \<Rightarrow> pystr \<Rightarrow> http_outcome"
  json_loads :: "pystr \<Rightarrow> decode_outcome"
  py_repr :: "jval \<Rightarrow> exn + pystr"
  render_image :: "nat \<Rightarrow> jval \<Rightarrow> exn + pystr"
  path_exists :: "nat \<Rightarrow> pystr \<Rightarrow> bool"
  open_rb :: "nat \<Rightarrow> pystr \<Rightarrow> exn option"
  send_photo :: "nat \<Rightarrow> pystr \<Rightarrow> pystr \<Rightarrow> pystr \<Rightarrow> exn option"
  os_remove :: "nat \<Rightarrow> pystr \<Rightarrow> exn option"
  send_message :: "nat \<Rightarrow> pystr \<Rightarrow> pystr \<Rightarrow> exn option"

section \<open>The global state: statistics, the set of sent entries, the observable trace\<close>

record run_stats =
  start_time :: "nat option"
  posts_sent :: nat
  last_check :: "nat option"
  errors :: nat
  last_post :: "nat option"
  yagpt_used :: nat
  yagpt_errors :: nat
  images_generated :: nat

datatype level = INFO | WARNING | ERROR | CRITICAL

text \<open>
  What the worker does to the outside, in order. A send event carries the link of the
  entry being processed (it identifies the entry; the call itself receives the channel and
  the text) and whether the call returned normally.
\<close>

datatype event =
    Log level pystr
  | SendPhoto pystr pystr pystr bool
  | SendMessage pystr pystr bool
  | Remove pystr bool
  | Sleep nat
  | Wait nat nat

record state =
  sent_entries :: "pystr set"
  stats :: run_stats
  trace :: "event list"
  now :: nat
  calls :: nat
  ctl_last_check :: nat

definition ext :: "world \<Rightarrow> state \<Rightarrow> state" where
  "ext w s = s\<lparr>now := now s + latency w (calls s), calls := Suc (calls s)\<rparr>"

definition emit :: "event \<Rightarrow> state \<Rightarrow> state" where
  "emit e s = s\<lparr>trace := trace s @ [e]\<rparr>"

definition logger :: "level \<Rightarrow> pystr \<Rightarrow> state \<Rightarrow> state" where
  "logger lv msg s = emit (Log lv msg) s"

definition inc_errors :: "state \<Rightarrow> state" where
  "inc_errors s = s\<lparr>stats := (stats s)\<lparr>errors := errors (stats s) + 1\<rparr>\<rparr>"

definition inc_yagpt_errors :: "state \<Rightarrow> state" where
  "inc_yagpt_errors s = s\<lparr>stats := (stats s)\<lparr>yagpt_errors := yagpt_errors (stats s) + 1\<rparr>\<rparr>"

definition inc_yagpt_used :: "state \<Rightarrow> state" where
  "inc_yagpt_used s = s\<lparr>stats := (stats s)\<lparr>yagpt_used := yagpt_used (stats s) + 1\<rparr>\<rparr>"

definition inc_images_generated :: "state \<Rightarrow> state" where
  "inc_images_generated s =
     s\<lparr>stats := (stats s)\<lparr>images_generated := images_generated (stats s) + 1\<rparr>\<rparr>"

text \<open>\<open>time.sleep(d)\<close>: the thread is suspended for \<open>d\<close> whatever the flags become.\<close>

definition time_sleep :: "nat \<Rightarrow> state \<Rightarrow> state" where
  "time_sleep d s = emit (Sleep d) (s\<lparr>now := now s + d\<rparr>)"

text \<open>
  \<open>Event.wait(timeout)\<close>: returns as soon as the flag is set, at the latest when the timeout
  has passed. \<open>event_wait f n t\<close> is the time of return of a wait begun at \<open>t\<close>.
\<close>

primrec event_wait :: "(nat \<Rightarrow> bool) \<Rightarrow> nat \<Rightarrow> nat \<Rightarrow> nat" where
  "event_wait f 0 t = t"
| "event_wait f (Suc n) t = (if f t then t else event_wait f n (Suc t))"

definition stop_event_wait :: "world \<Rightarrow> int \<Rightarrow> state \<Rightarrow> state" where
  "stop_event_wait w timeout s =
     (let t = event_wait (stop_is_set w) (nat timeout) (now s)
      in emit (Wait (nat timeout) (t - now s)) (s\<lparr>now := t\<rparr>))"

section \<open>Formatting and enhancement of an entry\<close>

text \<open>
  \<^verbatim>\<open>re.sub(r'<[^>]+>', '', text)\<close>: scanning from the left, an opening angle bracket
  followed by one or more characters other than the closing angle bracket and then a
  closing angle bracket is removed. The character class is greedy and cannot step over a
  closing bracket, so the run after the opening bracket is the longest one without a
  closing bracket. Code points: the opening bracket is 60, the closing bracket is 62.
\<close>

function re_sub_tags :: "pystr \<Rightarrow> pystr" where
  "re_sub_tags [] = []"
| "re_sub_tags (c # cs) =
     (if c = 60 \<and> takeWhile (\<lambda>x. x \<noteq> 62) cs \<noteq> [] \<and> dropWhile (\<lambda>x. x \<noteq> 62) cs \<noteq> []
      then re_sub_tags (tl (dropWhile (\<lambda>x. x \<noteq> 62) cs))
      else c # re_sub_tags cs)"
  by pat_completeness auto
termination
proof (relation "measure length")
  show "wf (measure length)" by simp
next
  fix c :: nat and cs :: pystr
  have "length (tl (dropWhile (\<lambda>x. x \<noteq> 62) cs)) \<le> length cs"
    using length_dropWhile_le [of "\<lambda>x. x \<noteq> 62" cs] by simp
  then show "(tl (dropWhile (\<lambda>x. x \<noteq> 62) cs), c # cs) \<in> measure length" by simp
next
  fix c :: nat and cs :: pystr
  show "(cs, c # cs) \<in> measure length" by simp
qed

text \<open>The lambda \<open>clean\<close> of \<open>format_message\<close>.\<close>

definition clean :: "pystr \<Rightarrow> pystr" where
  "clean text = (if text \<noteq> [] then re_sub_tags text else [])"

definition yagpt_enabled :: "config \<Rightarrow> bool" where
  "yagpt_enabled cfg \<longleftrightarrow>
     \<not> DISABLE_YAGPT cfg
     \<and> (case YANDEX_API_KEY cfg of None \<Rightarrow> False | Some k \<Rightarrow> k \<noteq> [])
     \<and> YANDEX_FOLDER_ID cfg \<noteq> []"

text \<open>The dictionary returned by \<open>enhance_with_yagpt\<close>: it always has both keys.\<close>

record enhanced =
  new_title :: jval
  new_description :: jval

text \<open>\<open>data.get(key, default)\<close> on the decoded object.\<close>

definition dict_get :: "(pystr \<rightharpoonup> jval) \<Rightarrow> pystr \<Rightarrow> jval \<Rightarrow> jval" where
  "dict_get d k dflt = (case d k of None \<Rightarrow> dflt | Some v \<Rightarrow> v)"

text \<open>
  \<open>result_text[json_start:json_end]\<close> with \<open>json_start = result_text.find('{')\<close> and
  \<open>json_end = result_text.rfind('}') + 1\<close>, both brackets being present. A slice whose
  end is not after its start is empty. Code points: \<open>{\<close> is 123, \<open>}\<close> is 125.
\<close>

definition json_start :: "pystr \<Rightarrow> nat" where
  "json_start rt = length (takeWhile (\<lambda>x. x \<noteq> 123) rt)"

definition json_end :: "pystr \<Rightarrow> nat" where
  "json_end rt = length rt - length (takeWhile (\<lambda>x. x \<noteq> 125) (rev rt))"

definition json_slice :: "pystr \<Rightarrow> pystr" where
  "json_slice rt = take (json_end rt - json_start rt) (drop (json_start rt) rt)"

text \<open>The limit on the length of the description that goes into the prompt.\<close>

definition shorten_input :: "pystr \<Rightarrow> pystr" where
  "shorten_input descr = (if length descr > 3000 then take 3000 descr @ ascii ''...'' else descr)"

text \<open>
  \<open>enhance_with_yagpt\<close>. The world receives the title and the (shortened) description
  that the prompt is built from. The text between the first opening and the last closing
  brace is decoded; a \<open>JSONDecodeError\<close> is caught by the inner handler, which logs and
  returns nothing, any other exception by the outer handler, which also counts it.
\<close>

definition enhance_with_yagpt ::
  "config \<Rightarrow> world \<Rightarrow> pystr \<Rightarrow> pystr \<Rightarrow> state \<Rightarrow> enhanced option \<times> state" where
  "enhance_with_yagpt cfg w ttl descr s =
     (if \<not> yagpt_enabled cfg then (None, s)
      else
        case requests_post w (calls s) ttl (shorten_input descr) of
          RequestException m \<Rightarrow>
            (None, inc_yagpt_errors
                     (logger ERROR (ascii ''YandexGPT request error: '' @ m) (ext w s)))
        | OtherException m \<Rightarrow>
            (None, inc_yagpt_errors
                     (logger ERROR (ascii ''YandexGPT processing error: '' @ m) (ext w s)))
        | ResponseText rt \<Rightarrow>
            (if 123 \<notin> set rt \<or> 125 \<notin> set rt
             then (None, logger ERROR (ascii ''YandexGPT response format error: '' @ rt)
                           (ext w s))
             else case json_loads w (json_slice rt) of
                    JSONDecodeError e \<Rightarrow>
                      (None, logger ERROR
                               (ascii ''YandexGPT JSON error: '' @ str_exn e
                                @ [10] @ ascii ''Response: '' @ rt) (ext w s))
                  | DecodeRaises e \<Rightarrow>
                      (None, inc_yagpt_errors
                               (logger ERROR (ascii ''YandexGPT processing error: '' @ str_exn e)
                                  (ext w s)))
                  | Decoded d \<Rightarrow>
                      (Some \<lparr>new_title = dict_get d (ascii ''title'') (JStr ttl),
                             new_description =
                               dict_get d (ascii ''description'') (JStr (shorten_input descr))\<rparr>,
                       ext w s)))"

text \<open>
  The truth value of a decoded value, the name of its type, and its \<open>len\<close>: a string, a
  list and a dict have one, \<open>len\<close> of anything else raises \<open>TypeError\<close>.
\<close>

fun truthy :: "jval \<Rightarrow> bool" where
  "truthy JNull = False"
| "truthy (JBool b) = b"
| "truthy (JNum n) = (n \<noteq> 0)"
| "truthy (JFloat nz) = nz"
| "truthy (JStr t) = (t \<noteq> [])"
| "truthy (JArr xs) = (xs \<noteq> [])"
| "truthy (JObj kvs) = (kvs \<noteq> [])"

fun type_name :: "jval \<Rightarrow> pystr" where
  "type_name JNull = ascii ''NoneType''"
| "type_name (JBool b) = ascii ''bool''"
| "type_name (JNum n) = ascii ''int''"
| "type_name (JFloat nz) = ascii ''float''"
| "type_name (JStr t) = ascii ''str''"
| "type_name (JArr xs) = ascii ''list''"
| "type_name (JObj kvs) = ascii ''dict''"

definition no_len :: "jval \<Rightarrow> exn" where
  "no_len v = Exception (ascii ''object of type '' @ [39] @ type_name v @ [39]
                         @ ascii '' has no len()'')"

fun py_len :: "jval \<Rightarrow> exn + nat" where
  "py_len (JStr t) = Inr (length t)"
| "py_len (JArr xs) = Inr (length xs)"
| "py_len (JObj kvs) = Inr (length (remdups (map fst kvs)))"
| "py_len JNull = Inl (no_len JNull)"
| "py_len (JBool b) = Inl (no_len (JBool b))"
| "py_len (JNum n) = Inl (no_len (JNum n))"
| "py_len (JFloat nz) = Inl (no_len (JFloat nz))"

text \<open>
  The quality check of \<open>format_message\<close>, evaluated left to right with the short circuit
  of \<open>and\<close>:
  \<^verbatim>\<open>new_title and len(new_title) > 10 and new_description and len(new_description) > 30
     and len(new_title) < 120 and len(new_description) < 600\<close>
\<close>

definition validate :: "jval \<Rightarrow> jval \<Rightarrow> exn + bool" where
  "validate nt nd =
     (if \<not> truthy nt then Inr False
      else case py_len nt of
             Inl e \<Rightarrow> Inl e
           | Inr lt \<Rightarrow>
               if \<not> lt > 10 then Inr False
               else if \<not> truthy nd then Inr False
               else case py_len nd of
                      Inl e \<Rightarrow> Inl e
                    | Inr ld \<Rightarrow>
                        if \<not> ld > 30 then Inr False
                        else Inr (lt < 120 \<and> ld < 600))"

text \<open>
  The enhancement block of \<open>format_message\<close>: from the cleaned title and description to
  the values of \<open>title\<close> and \<open>description\<close> after it. The check does not look at the type
  of the candidate, so an accepted title or description is a string, a list or a dict.
\<close>

definition enhance_step ::
  "config \<Rightarrow> world \<Rightarrow> pystr \<Rightarrow> pystr \<Rightarrow> state \<Rightarrow> (jval \<times> jval) \<times> state" where
  "enhance_step cfg w ttl descr s =
     (if \<not> yagpt_enabled cfg then ((JStr ttl, JStr descr), s)
      else case enhance_with_yagpt cfg w ttl descr s of
             (None, s1) \<Rightarrow> ((JStr ttl, JStr descr), s1)
           | (Some en, s1) \<Rightarrow>
               (case validate (new_title en) (new_description en) of
                  Inl e \<Rightarrow>
                    ((JStr ttl, JStr descr),
                     inc_yagpt_errors
                       (logger ERROR (ascii ''YandexGPT integration error: '' @ str_exn e) s1))
                | Inr True \<Rightarrow>
                    ((new_title en, new_description en),
                     logger INFO (ascii ''YandexGPT enhancement applied'') (inc_yagpt_used s1))
                | Inr False \<Rightarrow>
                    ((JStr ttl, JStr descr),
                     logger WARNING (ascii ''YandexGPT output validation failed'') s1)))"

text \<open>
  \<^verbatim>\<open>if len(description) > 500: description = description[:500] + "..."\<close>, which no
  handler encloses. A string is cut. A list of more than 500 elements is sliced and the
  sum of the slice and a string raises \<open>TypeError\<close>; a dict cannot be sliced (the message
  is that of CPython up to 3.11; from 3.12 on it is a \<open>KeyError\<close>); nothing else has a
  \<open>len\<close>.
\<close>

definition shorten :: "pystr \<Rightarrow> pystr" where
  "shorten descr = (if length descr > 500 then take 500 descr @ ascii ''...'' else descr)"

fun slice_and_dots :: "jval \<Rightarrow> exn + jval" where
  "slice_and_dots (JStr t) = Inr (JStr (take 500 t @ ascii ''...''))"
| "slice_and_dots (JArr xs) =
     Inl (Exception (ascii ''can only concatenate list (not '' @ [34] @ ascii ''str'' @ [34]
                     @ ascii '') to list''))"
| "slice_and_dots (JObj kvs) =
     Inl (Exception (ascii ''unhashable type: '' @ [39] @ ascii ''slice'' @ [39]))"
| "slice_and_dots v =
     Inl (Exception ([39] @ type_name v @ [39] @ ascii '' object is not subscriptable''))"

definition shorten_value :: "jval \<Rightarrow> exn + jval" where
  "shorten_value descr =
     (case py_len descr of
        Inl e \<Rightarrow> Inl e
      | Inr n \<Rightarrow> if n > 500 then slice_and_dots descr else Inr descr)"

text \<open>
  \<open>ImageGenerator.generate_image\<close>. Drawing is left to the world, which answers with the
  path of the saved file or with the exception that the method catches; the counter is
  incremented on success. The title is used through \<open>title.split()\<close>: for a title that is
  not a string the answer \<open>Inr\<close> of the world stands for library calls that do not fail
  before that line, which then raises \<open>AttributeError\<close>. Warnings written while drawing
  and the traceback line are not part of the trace.
\<close>

definition no_split :: "jval \<Rightarrow> exn" where
  "no_split v = Exception ([39] @ type_name v @ [39]
                           @ ascii '' object has no attribute '' @ [39] @ ascii ''split'' @ [39])"

definition generate_image :: "world \<Rightarrow> jval \<Rightarrow> state \<Rightarrow> pystr option \<times> state" where
  "generate_image w ttl s =
     (case render_image w (calls s) ttl of
        Inl e \<Rightarrow> (None, logger ERROR (ascii ''Image generation failed: '' @ str_exn e) (ext w s))
      | Inr p \<Rightarrow>
          (case ttl of
             JStr t \<Rightarrow> (Some p, inc_images_generated (ext w s))
           | _ \<Rightarrow> (None, logger ERROR (ascii ''Image generation failed: '' @ str_exn (no_split ttl))
                           (ext w s))))"

definition image_step ::
  "world \<Rightarrow> jval \<Rightarrow> pystr \<Rightarrow> state \<Rightarrow> pystr option \<times> state" where
  "image_step w ttl original_title s =
     (let image_title = (if truthy ttl then ttl else JStr original_title)
      in if truthy image_title
         then case generate_image w image_title s of
                (Some p, s1) \<Rightarrow>
                  (if p \<noteq> [] then (Some p, logger INFO (ascii ''Image generated: '' @ p) s1)
                   else (Some p, logger WARNING (ascii ''Image generation returned no path'') s1))
              | (None, s1) \<Rightarrow>
                  (None, logger WARNING (ascii ''Image generation returned no path'') s1)
         else (None, s))"

text \<open>The caption of the link: a link emoji and two Russian words, as code points.\<close>

definition READ_MORE :: pystr where
  "READ_MORE = [128279, 32, 1063, 1080, 1090, 1072, 1090, 1100, 32,
                1087, 1086, 1083, 1085, 1086, 1089, 1090, 1100, 1102]"

definition message_of :: "pystr \<Rightarrow> pystr \<Rightarrow> pystr \<Rightarrow> pystr" where
  "message_of ttl descr lnk =
     ascii ''<b>'' @ ttl @ ascii ''</b>'' @ [10, 10] @ descr @ [10, 10]
     @ ascii ''<a href='' @ [39] @ lnk @ [39] @ ascii ''>'' @ READ_MORE @ ascii ''</a>''"

text \<open>
  The f-string of the last statement: a string is put as it is, any other value through
  its text form, the title first.
\<close>

definition format_value :: "world \<Rightarrow> jval \<Rightarrow> exn + pystr" where
  "format_value w v = (case v of JStr t \<Rightarrow> Inr t | _ \<Rightarrow> py_repr w v)"

definition message_text :: "world \<Rightarrow> jval \<Rightarrow> jval \<Rightarrow> pystr \<Rightarrow> exn + pystr" where
  "message_text w ttl descr lnk =
     (case format_value w ttl of
        Inl ex \<Rightarrow> Inl ex
      | Inr t \<Rightarrow>
          (case format_value w descr of
             Inl ex \<Rightarrow> Inl ex
           | Inr d \<Rightarrow> Inr (message_of t d lnk)))"

text \<open>
  \<open>format_message\<close>. The fields of a feed entry are strings, as \<open>feedparser\<close> delivers
  them, so the removal of tags does not raise. The enhancement and the image have their
  own handlers; the shortening of the description and the last statement have none, and
  an exception raised there leaves the function: the result is then \<open>Inl\<close>.
\<close>

definition format_message ::
  "config \<Rightarrow> world \<Rightarrow> entry \<Rightarrow> state \<Rightarrow> (exn + pystr \<times> pystr option) \<times> state" where
  "format_message cfg w e s =
     (let title0 = (case title e of Some t \<Rightarrow> t | None \<Rightarrow> ascii ''No title'');
          description0 = (case description e of Some d \<Rightarrow> d | None \<Rightarrow> []);
          lnk = (case link e of Some l \<Rightarrow> l | None \<Rightarrow> []);
          original_title = clean title0;
          original_description = clean description0
      in case enhance_step cfg w original_title original_description s of
           ((ttl, descr), s1) \<Rightarrow>
             (case shorten_value descr of
                Inl ex \<Rightarrow> (Inl ex, s1)
              | Inr descr' \<Rightarrow>
                  (case image_step w ttl original_title s1 of
                     (image_path, s2) \<Rightarrow>
                       (case message_text w ttl descr' lnk of
                          Inl ex \<Rightarrow> (Inl ex, s2)
                        | Inr message \<Rightarrow> (Inr (message, image_path), s2)))))"

section \<open>The worker: publishing, sources, cycles\<close>

text \<open>\<^verbatim>\<open>bot.send_message(chat_id=CHANNEL_ID, text=message, parse_mode='HTML')\<close>.\<close>

definition bot_send_message ::
  "config \<Rightarrow> world \<Rightarrow> pystr \<Rightarrow> pystr \<Rightarrow> state \<Rightarrow> exn option \<times> state" where
  "bot_send_message cfg w lnk message s =
     (let r = send_message w (calls s) (CHANNEL_ID cfg) message
      in (r, emit (SendMessage lnk message (r = None)) (ext w s)))"

text \<open>
  The handler of the photo block: the failure is logged and the message is sent as text;
  a failure of that send leaves the block.
\<close>

definition photo_fallback ::
  "config \<Rightarrow> world \<Rightarrow> pystr \<Rightarrow> pystr \<Rightarrow> exn \<Rightarrow> state \<Rightarrow> exn option \<times> state" where
  "photo_fallback cfg w lnk message e s =
     bot_send_message cfg w lnk message
       (logger ERROR (ascii ''Error sending photo: '' @ str_exn e) s)"

text \<open>
  The photo block: open the file, send the photo, remove the file, log; an exception of
  any of the three calls is caught by the same handler.
\<close>

definition send_with_photo ::
  "config \<Rightarrow> world \<Rightarrow> pystr \<Rightarrow> pystr \<Rightarrow> pystr \<Rightarrow> state \<Rightarrow> exn option \<times> state" where
  "send_with_photo cfg w lnk message p s =
     (case open_rb w (calls s) p of
        Some e \<Rightarrow> photo_fallback cfg w lnk message e (ext w s)
      | None \<Rightarrow>
          let s1 = ext w s;
              r = send_photo w (calls s1) (CHANNEL_ID cfg) p message;
              s2 = emit (SendPhoto lnk p message (r = None)) (ext w s1)
          in case r of
               Some e \<Rightarrow> photo_fallback cfg w lnk message e s2
             | None \<Rightarrow>
                 let r' = os_remove w (calls s2) p;
                     s3 = emit (Remove p (r' = None)) (ext w s2)
                 in case r' of
                      Some e \<Rightarrow> photo_fallback cfg w lnk message e s3
                    | None \<Rightarrow>
                        (None, logger INFO (ascii ''Image sent and removed: '' @ p) s3))"

text \<open>
  \<^verbatim>\<open>if image_path and os.path.exists(image_path): ... else: bot.send_message(...)\<close>.
  The result is the exception that leaves the block, if any.
\<close>

definition publish ::
  "config \<Rightarrow> world \<Rightarrow> pystr \<Rightarrow> pystr \<Rightarrow> pystr option \<Rightarrow> state \<Rightarrow> exn option \<times> state" where
  "publish cfg w lnk message image_path s =
     (case image_path of
        None \<Rightarrow> bot_send_message cfg w lnk message s
      | Some p \<Rightarrow>
          if p = [] then bot_send_message cfg w lnk message s
          else if path_exists w (calls s) p
               then send_with_photo cfg w lnk message p (ext w s)
               else bot_send_message cfg w lnk message (ext w s))"

text \<open>
  The \<open>try\<close> block of an entry whose link \<open>l\<close> has passed the test: the message is
  formatted and published, the link is recorded; any exception, of the formatting or of
  the publication, is counted by the handler and the link is not recorded.
\<close>

definition process_new_entry :: "config \<Rightarrow> world \<Rightarrow> entry \<Rightarrow> pystr \<Rightarrow> state \<Rightarrow> state" where
  "process_new_entry cfg w e l s =
     (case format_message cfg w e s of
        (Inl ex, s1) \<Rightarrow> inc_errors (logger ERROR (ascii ''Send error: '' @ str_exn ex) s1)
      | (Inr (message, image_path), s1) \<Rightarrow>
          (case publish cfg w l message image_path s1 of
             (Some ex, s2) \<Rightarrow>
               inc_errors (logger ERROR (ascii ''Send error: '' @ str_exn ex) s2)
           | (None, s2) \<Rightarrow>
               time_sleep 3
                 (logger INFO (ascii ''Posted: '' @ l)
                    (s2\<lparr>sent_entries := insert l (sent_entries s2),
                        stats := (stats s2)\<lparr>posts_sent := posts_sent (stats s2) + 1,
                                             last_post := Some (now s2)\<rparr>\<rparr>))))"

text \<open>
  The body of the loop over the entries of one feed, after the test of the stop event:
  the test of the link against the set of sent entries, then the \<open>try\<close> block.
\<close>

definition process_entry :: "config \<Rightarrow> world \<Rightarrow> entry \<Rightarrow> state \<Rightarrow> state" where
  "process_entry cfg w e s =
     (case link e of
        None \<Rightarrow> s
      | Some l \<Rightarrow> if l \<in> sent_entries s then s else process_new_entry cfg w e l s)"

fun process_entries :: "config \<Rightarrow> world \<Rightarrow> entry list \<Rightarrow> state \<Rightarrow> state" where
  "process_entries cfg w [] s = s"
| "process_entries cfg w (e # es) s =
     (if stop_is_set w (now s) then s
      else process_entries cfg w es (process_entry cfg w e s))"

text \<open>The body of the loop over the sources, after the test of the stop event.\<close>

definition process_source :: "config \<Rightarrow> world \<Rightarrow> pystr \<Rightarrow> state \<Rightarrow> state" where
  "process_source cfg w url s =
     (case feedparser_parse w (calls s) url of
        Inl e \<Rightarrow>
          inc_errors
            (logger ERROR (ascii ''Feed error ('' @ url @ ascii ''): '' @ str_exn e) (ext w s))
      | Inr es \<Rightarrow>
          if es = [] then logger WARNING (ascii ''Empty feed: '' @ url) (ext w s)
          else process_entries cfg w (rev (take 10 es)) (ext w s))"

fun sweep :: "config \<Rightarrow> world \<Rightarrow> pystr list \<Rightarrow> state \<Rightarrow> state" where
  "sweep cfg w [] s = s"
| "sweep cfg w (url # urls) s =
     (if stop_is_set w (now s) then s
      else sweep cfg w urls (process_source cfg w url s))"

text \<open>
  One iteration of the \<open>while\<close> loop of \<open>rss_loop\<close>. The clock is read and the time of
  the check is written first (\<open>record_check\<close>). Of the statements that follow outside the
  handler of a source, the loop over the sources and the tests of the stop event do not
  raise, and the handlers of a source and of an entry catch what the statements they
  enclose raise. The world decides through \<open>loop_fault\<close> whether the iteration raises at
  its head, after the time of the check has been written and before the sources are
  visited, which is the case of the outermost handler. This counts as one external call.
  The wait is taken to return: its timeout is the configured interval, an integer within
  the range that the platform accepts. \<open>visit_sources\<close> is the rest of the \<open>try\<close> block
  up to the wait.
\<close>

definition record_check :: "state \<Rightarrow> state" where
  "record_check s =
     s\<lparr>ctl_last_check := now s, stats := (stats s)\<lparr>last_check := Some (now s)\<rparr>\<rparr>"

definition visit_sources :: "config \<Rightarrow> world \<Rightarrow> state \<Rightarrow> state" where
  "visit_sources cfg w s1 =
     (let s2 = logger INFO
                 (ascii ''Checking '' @ str_nat (length (RSS_URLS cfg)) @ ascii '' RSS feeds'')
                 s1;
          s3 = sweep cfg w (RSS_URLS cfg) s2
      in logger INFO
           (ascii ''Cycle complete. Next check in '' @ str_int (CHECK_INTERVAL cfg)
            @ ascii '' sec'') s3)"

definition cycle :: "config \<Rightarrow> world \<Rightarrow> state \<Rightarrow> state" where
  "cycle cfg w s =
     (let s1 = record_check s
      in case loop_fault w (calls s1) of
           Some e \<Rightarrow>
             time_sleep 30
               (inc_errors (logger CRITICAL (ascii ''Loop error: '' @ str_exn e) (ext w s1)))
         | None \<Rightarrow> stop_event_wait w (CHECK_INTERVAL cfg) (visit_sources cfg w (ext w s1)))"

text \<open>
  The \<open>while\<close> loop, with fuel: \<open>rss_while cfg w n s\<close> runs at most \<open>n\<close> iterations and
  gives the state reached, with \<open>True\<close> when the loop has been left.
\<close>

fun rss_while :: "config \<Rightarrow> world \<Rightarrow> nat \<Rightarrow> state \<Rightarrow> bool \<times> state" where
  "rss_while cfg w 0 s = (False, s)"
| "rss_while cfg w (Suc n) s =
     (if running_at w (now s) \<and> \<not> stop_is_set w (now s)
      then rss_while cfg w n (cycle cfg w s)
      else (True, logger INFO (ascii ''===== RSS LOOP STOPPED ====='') s))"

definition rss_loop :: "config \<Rightarrow> world \<Rightarrow> nat \<Rightarrow> state \<Rightarrow> bool \<times> state" where
  "rss_loop cfg w n s = rss_while cfg w n (logger INFO (ascii ''===== RSS LOOP STARTED ====='') s)"

text \<open>
  The runs of workers that follow one another in one process, none beginning before the
  one before it has returned: a run begins with the set of sent entries and the trace as
  the run before has left them, and with the statistics that \<open>start\<close> has written. Each
  run has its world and its fuel.
\<close>

fun runs :: "config \<Rightarrow> (run_stats \<times> world \<times> nat) list \<Rightarrow> state \<Rightarrow> state" where
  "runs cfg [] s = s"
| "runs cfg ((st, w, n) # rs) s = runs cfg rs (snd (rss_loop cfg w n (s\<lparr>stats := st\<rparr>)))"

section \<open>The controller\<close>

text \<open>
  The controller object, the statistics it resets and the threads of the process:
  \<open>alive\<close> lists the worker threads that have been started and have not returned,
  \<open>spawned\<close> counts the threads started so far and names the next one.
\<close>

record controller =
  is_running :: bool
  stop_event :: bool
  worker_thread :: "nat option"

record system =
  ctl :: controller
  sys_stats :: run_stats
  alive :: "nat list"
  spawned :: nat

text \<open>\<open>BotController.start\<close>; \<open>t\<close> is the value of \<open>datetime.now()\<close>.\<close>

definition start :: "nat \<Rightarrow> system \<Rightarrow> bool \<times> system" where
  "start t sys =
     (if is_running (ctl sys) then (False, sys)
      else (True,
            sys\<lparr>ctl := \<lparr>is_running = True, stop_event = False,
                         worker_thread = Some (spawned sys)\<rparr>,
                alive := alive sys @ [spawned sys],
                spawned := Suc (spawned sys),
                sys_stats := (sys_stats sys)\<lparr>start_time := Some t, last_check := None,
                                             posts_sent := 0, errors := 0, yagpt_used := 0,
                                             yagpt_errors := 0, images_generated := 0\<rparr>\<rparr>))"

text \<open>
  \<open>BotController.stop\<close>. The join waits at most five seconds; \<open>joined\<close> says whether
  the worker has seen the flags and returned within that time. Either way \<open>stop\<close> returns
  \<open>True\<close>.
\<close>

definition stop :: "bool \<Rightarrow> system \<Rightarrow> bool \<times> system" where
  "stop joined sys =
     (if \<not> is_running (ctl sys) then (False, sys)
      else (True,
            sys\<lparr>ctl := (ctl sys)\<lparr>is_running := False, stop_event := True\<rparr>,
                alive := (case worker_thread (ctl sys) of
                            None \<Rightarrow> alive sys
                          | Some tid \<Rightarrow> if joined then removeAll tid (alive sys)
                                        else alive sys)\<rparr>))"

definition status :: "system \<Rightarrow> bool" where
  "status sys = is_running (ctl sys)"

text \<open>
  A worker thread that reaches the test of its \<open>while\<close> loop returns exactly when the
  test fails.
\<close>

definition loop_test :: "controller \<Rightarrow> bool" where
  "loop_test c \<longleftrightarrow> is_running c \<and> \<not> stop_event c"

definition worker_reaches_test :: "nat \<Rightarrow> system \<Rightarrow> system" where
  "worker_reaches_test tid sys =
     (if loop_test (ctl sys) then sys else sys\<lparr>alive := removeAll tid (alive sys)\<rparr>)"

definition init_system :: system where
  "init_system =
     \<lparr>ctl = \<lparr>is_running = False, stop_event = False, worker_thread = None\<rparr>,
      sys_stats = \<lparr>start_time = None, posts_sent = 0, last_check = None, errors = 0,
                   last_post = None, yagpt_used = 0, yagpt_errors = 0, images_generated = 0\<rparr>,
      alive = [], spawned = 0\<rparr>"

text \<open>The commands of the operator, in sequence.\<close>

datatype command = Start nat | Stop bool

fun run_commands :: "command list \<Rightarrow> system \<Rightarrow> system" where
  "run_commands [] sys = sys"
| "run_commands (Start t # cs) sys = run_commands cs (snd (start t sys))"
| "run_commands (Stop joined # cs) sys = run_commands cs (snd (stop joined sys))"

section \<open>Concrete configurations, worlds and states\<close>

text \<open>
  A configuration with enhancement switched off and a world in which nothing happens:
  the stop event is never set, feeds are empty, the request to the language model times
  out, no image is drawn and every send succeeds. The examples below change single
  answers of this world. The text form of a value that is not a string is a placeholder
  here; the one example that puts such a value into a message gives its text.
\<close>

definition plain_config :: config where
  "plain_config =
     \<lparr>RSS_URLS = [ascii ''u1'', ascii ''u2''], CHECK_INTERVAL = 300, CHANNEL_ID = ascii ''@c'',
      YANDEX_API_KEY = None, YANDEX_FOLDER_ID = [], DISABLE_YAGPT = False\<rparr>"

definition yagpt_config :: config where
  "yagpt_config =
     plain_config\<lparr>YANDEX_API_KEY := Some (ascii ''key''), YANDEX_FOLDER_ID := ascii ''folder''\<rparr>"

definition quiet_world :: world where
  "quiet_world =
     \<lparr>stop_is_set = (\<lambda>t. False),
      running_at = (\<lambda>t. True),
      latency = (\<lambda>n. 0),
      loop_fault = (\<lambda>n. None),
      feedparser_parse = (\<lambda>n url. Inr []),
      requests_post = (\<lambda>n t d. RequestException (ascii ''timeout'')),
      json_loads = (\<lambda>t. JSONDecodeError (Exception (ascii ''Expecting value''))),
      py_repr = (\<lambda>v. Inr (ascii ''[...]'')),
      render_image = (\<lambda>n t. Inl (Exception (ascii ''no font''))),
      path_exists = (\<lambda>n p. False),
      open_rb = (\<lambda>n p. None),
      send_photo = (\<lambda>n c p m. None),
      os_remove = (\<lambda>n p. None),
      send_message = (\<lambda>n c m. None)\<rparr>"

definition init_state :: state where
  "init_state =
     \<lparr>sent_entries = {},
      stats = \<lparr>start_time = Some 0, posts_sent = 0, last_check = None, errors = 0,
               last_post = None, yagpt_used = 0, yagpt_errors = 0, images_generated = 0\<rparr>,
      trace = [], now = 0, calls = 0, ctl_last_check = 0\<rparr>"

definition entry_of :: "string \<Rightarrow> entry" where
  "entry_of l = \<lparr>title = Some (ascii ''T''), description = Some (ascii ''D''), link = Some (ascii l)\<rparr>"

text \<open>A system that has run once and has been stopped, with a worker that has returned.\<close>

definition stopped_after_run :: system where
  "stopped_after_run =
     \<lparr>ctl = \<lparr>is_running = False, stop_event = True, worker_thread = Some 0\<rparr>,
      sys_stats = \<lparr>start_time = Some 0, posts_sent = 5, last_check = Some 40, errors = 2,
                   last_post = Some 42, yagpt_used = 3, yagpt_errors = 1, images_generated = 4\<rparr>,
      alive = [], spawned = 1\<rparr>"

text \<open>The invariant of a controller whose every join has completed.\<close>

definition one_worker :: "system \<Rightarrow> bool" where
  "one_worker sys \<longleftrightarrow>
     (if is_running (ctl sys)
      then (case worker_thread (ctl sys) of None \<Rightarrow> False | Some tid \<Rightarrow> alive sys = [tid])
      else alive sys = [])"

fun joins_complete :: "command list \<Rightarrow> bool" where
  "joins_complete [] = True"
| "joins_complete (Start t # cs) = joins_complete cs"
| "joins_complete (Stop joined # cs) = (joined \<and> joins_complete cs)"

section \<open>Reading the trace\<close>

text \<open>The publish calls of a trace, the links they are made for, and their outcomes.\<close>

fun is_send :: "event \<Rightarrow> bool" where
  "is_send (SendPhoto l p m ok) = True"
| "is_send (SendMessage l m ok) = True"
| "is_send (Log lv m) = False"
| "is_send (Remove p ok) = False"
| "is_send (Sleep d) = False"
| "is_send (Wait n d) = False"

fun link_of :: "event \<Rightarrow> pystr" where
  "link_of (SendPhoto l p m ok) = l"
| "link_of (SendMessage l m ok) = l"
| "link_of (Log lv m) = []"
| "link_of (Remove p ok) = []"
| "link_of (Sleep d) = []"
| "link_of (Wait n d) = []"

fun is_ok_send :: "event \<Rightarrow> bool" where
  "is_ok_send (SendPhoto l p m ok) = ok"
| "is_ok_send (SendMessage l m ok) = ok"
| "is_ok_send (Log lv m) = False"
| "is_ok_send (Remove p ok) = False"
| "is_ok_send (Sleep d) = False"
| "is_ok_send (Wait n d) = False"

definition sends :: "event list \<Rightarrow> event list" where
  "sends tr = filter is_send tr"

definition send_links :: "event list \<Rightarrow> pystr list" where
  "send_links tr = map link_of (sends tr)"

text \<open>
  A step that publishes nothing: it leaves the set of sent entries, the publish calls of
  the trace and the counters of posts and errors as they are.
\<close>

definition no_publish :: "state \<Rightarrow> state \<Rightarrow> bool" where
  "no_publish s s' \<longleftrightarrow>
     sent_entries s' = sent_entries s
     \<and> sends (trace s') = sends (trace s)
     \<and> errors (stats s') = errors (stats s)
     \<and> posts_sent (stats s') = posts_sent (stats s)
     \<and> last_post (stats s') = last_post (stats s)"

text \<open>
  The publish calls that the processing of one entry with link \<open>l\<close> may add: a text
  message, a photo, or a photo followed by the text message of the handler.
\<close>

fun entry_sends :: "pystr \<Rightarrow> event list \<Rightarrow> bool" where
  "entry_sends l [SendMessage l' m ok] = (l' = l)"
| "entry_sends l [SendPhoto l' p m ok] = (l' = l \<and> ok)"
| "entry_sends l [SendPhoto l' p m ok, SendMessage l'' m' ok'] = (l' = l \<and> l'' = l \<and> m' = m)"
| "entry_sends l evs = False"

text \<open>
  What the publish block for the link \<open>l\<close> does when it ends with \<open>r\<close>: the set of
  sent entries and the statistics stay, the trace gains the publish calls of one entry,
  all for \<open>l\<close>, and the block ends normally exactly when the last of them succeeded.
\<close>

definition published :: "pystr \<Rightarrow> exn option \<Rightarrow> state \<Rightarrow> state \<Rightarrow> bool" where
  "published l r s s' \<longleftrightarrow>
     sent_entries s' = sent_entries s \<and> stats s' = stats s
     \<and> (\<exists>evs. sends (trace s') = sends (trace s) @ evs \<and> entry_sends l evs
               \<and> is_ok_send (last evs) = (r = None))"

text \<open>Whether \<open>format_message\<close> returned.\<close>

definition returns :: "exn + pystr \<times> pystr option \<Rightarrow> bool" where
  "returns r = (case r of Inl ex \<Rightarrow> False | Inr mp \<Rightarrow> True)"

text \<open>
  What the processing of a new entry with link \<open>l\<close> does, \<open>formatted\<close> saying whether
  the formatting returned: it adds the publish calls of one entry, or none when the
  formatting raised; when the last of the calls succeeded the link is recorded and a post
  is counted, otherwise the set stays as it is and an error is counted.
\<close>

definition processed :: "bool \<Rightarrow> pystr \<Rightarrow> state \<Rightarrow> state \<Rightarrow> bool" where
  "processed formatted l s s' \<longleftrightarrow>
     (\<exists>evs. sends (trace s') = sends (trace s) @ evs
        \<and> (if formatted then entry_sends l evs else evs = [])
        \<and> (if evs \<noteq> [] \<and> is_ok_send (last evs)
            then sent_entries s' = insert l (sent_entries s)
                 \<and> posts_sent (stats s') = posts_sent (stats s) + 1
                 \<and> errors (stats s') = errors (stats s)
            else sent_entries s' = sent_entries s
                 \<and> posts_sent (stats s') = posts_sent (stats s)
                 \<and> errors (stats s') = errors (stats s) + 1))"

text \<open>
  A link that is in the set of sent entries stays there and gains no publish call.
\<close>

definition keeps :: "pystr \<Rightarrow> state \<Rightarrow> state \<Rightarrow> bool" where
  "keeps l s s' \<longleftrightarrow>
     l \<in> sent_entries s'
     \<and> count_list (send_links (trace s')) l = count_list (send_links (trace s)) l"

text \<open>The message of a result of \<open>format_message\<close>, or the exception that left it.\<close>

definition message_part :: "exn + pystr \<times> pystr option \<Rightarrow> exn + pystr" where
  "message_part r = (case r of Inl ex \<Rightarrow> Inl ex | Inr (m, p) \<Rightarrow> Inr m)"

text \<open>
  A value that is a list or a dict: it has a \<open>len\<close> and is not a string. The replies of
  a world are plain when no decoded object has such a value as its title or as its
  description.
\<close>

fun is_container :: "jval \<Rightarrow> bool" where
  "is_container (JArr xs) = True"
| "is_container (JObj kvs) = True"
| "is_container v = False"

definition plain_replies :: "world \<Rightarrow> bool" where
  "plain_replies w \<longleftrightarrow>
     (\<forall>t d v. json_loads w t = Decoded d
        \<and> (d (ascii ''title'') = Some v \<or> d (ascii ''description'') = Some v)
        \<longrightarrow> \<not> is_container v)"

definition link_or_empty :: "entry \<Rightarrow> pystr" where
  "link_or_empty e = (case link e of Some l \<Rightarrow> l | None \<Rightarrow> [])"

text \<open>
  The title and the description of an entry after the removal of tags, as
  \<open>format_message\<close> computes them before the enhancement.
\<close>

definition original_title :: "entry \<Rightarrow> pystr" where
  "original_title e = clean (case title e of Some t \<Rightarrow> t | None \<Rightarrow> ascii ''No title'')"

definition original_description :: "entry \<Rightarrow> pystr" where
  "original_description e = clean (case description e of Some d \<Rightarrow> d | None \<Rightarrow> [])"

text \<open>The message of an entry that is not enhanced.\<close>

definition original_message :: "entry \<Rightarrow> pystr" where
  "original_message e =
     message_of (original_title e) (shorten (original_description e)) (link_or_empty e)"

section \<open>The worlds, states and entries of the examples\<close>

text \<open>
  A world in which an image is drawn and found on disk and the photo call fails, so that
  the handler sends the text.
\<close>

definition photo_fails_world :: world where
  "photo_fails_world =
     quiet_world\<lparr>render_image := (\<lambda>n t. Inr (ascii ''p.jpg'')),
                 path_exists := (\<lambda>n p. True),
                 send_photo := (\<lambda>n c p m. Some (Exception (ascii ''bad photo'')))\<rparr>"


text \<open>A world with three entries in its feed, the newest first.\<close>

definition three_entries_world :: world where
  "three_entries_world =
     quiet_world\<lparr>feedparser_parse :=
       (\<lambda>n url. Inr [entry_of ''e1'', entry_of ''e2'', entry_of ''e3''])\<rparr>"

text \<open>
  A world in which the iteration raises at once and the stop event is set from time 1 on.
\<close>

definition faulty_world :: world where
  "faulty_world =
     quiet_world\<lparr>loop_fault := (\<lambda>n. Some (Exception (ascii ''boom''))),
                 stop_is_set := (\<lambda>t. 1 \<le> t)\<rparr>"

text \<open>A world in which the stop event is set from time 5 on.\<close>

definition stop_at_5_world :: world where
  "stop_at_5_world = quiet_world\<lparr>stop_is_set := (\<lambda>t. 5 \<le> t)\<rparr>"

text \<open>A state in which the link of the first example entry has been recorded.\<close>

definition already_sent_state :: state where
  "already_sent_state = init_state\<lparr>sent_entries := {ascii ''e1''}\<rparr>"

text \<open>
  The text of a reply of the language model: a JSON object with a title, a string, and a
  description, whose JSON text is given. Code points: \<open>{\<close> is 123, \<open>}\<close> is 125, the
  double quote is 34, the colon 58, the comma 44, the space 32.
\<close>

definition reply_text :: "pystr \<Rightarrow> pystr \<Rightarrow> pystr" where
  "reply_text nt dtext =
     [123, 34] @ ascii ''title'' @ [34, 58, 32, 34] @ nt @ [34, 44, 32, 34]
     @ ascii ''description'' @ [34, 58, 32] @ dtext @ [125]"

text \<open>
  A world whose language model answers with that text, which the decoder turns into the
  object with the title \<open>nt\<close> and the description \<open>dval\<close>; \<open>dtext\<close> is to be the JSON
  text of \<open>dval\<close>. Any other text is not decoded.
\<close>

definition reply_world :: "pystr \<Rightarrow> pystr \<Rightarrow> jval \<Rightarrow> world" where
  "reply_world nt dtext dval =
     quiet_world\<lparr>requests_post := (\<lambda>n t d. ResponseText (reply_text nt dtext)),
                 json_loads :=
                   (\<lambda>x. if x = reply_text nt dtext
                        then Decoded [ascii ''title'' \<mapsto> JStr nt, ascii ''description'' \<mapsto> dval]
                        else JSONDecodeError (Exception (ascii ''Expecting value'')))\<rparr>"

text \<open>The reply with a description that is a string (of letters).\<close>

definition text_reply_world :: "pystr \<Rightarrow> pystr \<Rightarrow> world" where
  "text_reply_world nt nd = reply_world nt ([34] @ nd @ [34]) (JStr nd)"

text \<open>
  The reply with a description that is an array of \<open>n\<close> zeros, \<open>[0, 0, ..., 0]\<close>. The
  text form of that list in Python is the same text. Code points: the brackets are 91
  and 93, the digit zero is 48.
\<close>

definition zeros_text :: "nat \<Rightarrow> pystr" where
  "zeros_text n =
     (if n = 0 then [91, 93] else [91] @ concat (replicate (n - 1) [48, 44, 32]) @ [48, 93])"

definition array_reply_world :: "pystr \<Rightarrow> nat \<Rightarrow> world" where
  "array_reply_world nt n =
     (reply_world nt (zeros_text n) (JArr (replicate n (JNum 0))))
       \<lparr>py_repr := (\<lambda>v. if v = JArr (replicate n (JNum 0)) then Inr (zeros_text n)
                         else py_repr quiet_world v)\<rparr>"

text \<open>An entry without title, description and link.\<close>

definition bare_entry :: entry where
  "bare_entry = \<lparr>title = None, description = None, link = None\<rparr>"

section \<open>What each step leaves unchanged\<close>

lemma ext_fields [simp]:
  "sent_entries (ext w s) = sent_entries s" "stats (ext w s) = stats s"
  "trace (ext w s) = trace s" "calls (ext w s) = Suc (calls s)"
  "now (ext w s) = now s + latency w (calls s)"
  by (simp_all add: ext_def)

lemma emit_fields [simp]:
  "sent_entries (emit e s) = sent_entries s" "stats (emit e s) = stats s"
  "trace (emit e s) = trace s @ [e]" "calls (emit e s) = calls s" "now (emit e s) = now s"
  by (simp_all add: emit_def)

lemma logger_fields [simp]:
  "sent_entries (logger lv m s) = sent_entries s" "stats (logger lv m s) = stats s"
  "trace (logger lv m s) = trace s @ [Log lv m]" "calls (logger lv m s) = calls s"
  "now (logger lv m s) = now s"
  by (simp_all add: logger_def)

lemma inc_errors_fields [simp]:
  "sent_entries (inc_errors s) = sent_entries s" "trace (inc_errors s) = trace s"
  "calls (inc_errors s) = calls s" "now (inc_errors s) = now s"
  "errors (stats (inc_errors s)) = errors (stats s) + 1"
  "posts_sent (stats (inc_errors s)) = posts_sent (stats s)"
  "last_post (stats (inc_errors s)) = last_post (stats s)"
  "yagpt_used (stats (inc_errors s)) = yagpt_used (stats s)"
  "yagpt_errors (stats (inc_errors s)) = yagpt_errors (stats s)"
  by (simp_all add: inc_errors_def)

lemma inc_yagpt_errors_fields [simp]:
  "sent_entries (inc_yagpt_errors s) = sent_entries s" "trace (inc_yagpt_errors s) = trace s"
  "calls (inc_yagpt_errors s) = calls s" "now (inc_yagpt_errors s) = now s"
  "errors (stats (inc_yagpt_errors s)) = errors (stats s)"
  "posts_sent (stats (inc_yagpt_errors s)) = posts_sent (stats s)"
  "last_post (stats (inc_yagpt_errors s)) = last_post (stats s)"
  "yagpt_used (stats (inc_yagpt_errors s)) = yagpt_used (stats s)"
  "yagpt_errors (stats (inc_yagpt_errors s)) = yagpt_errors (stats s) + 1"
  by (simp_all add: inc_yagpt_errors_def)

lemma inc_yagpt_used_fields [simp]:
  "sent_entries (inc_yagpt_used s) = sent_entries s" "trace (inc_yagpt_used s) = trace s"
  "calls (inc_yagpt_used s) = calls s" "now (inc_yagpt_used s) = now s"
  "errors (stats (inc_yagpt_used s)) = errors (stats s)"
  "posts_sent (stats (inc_yagpt_used s)) = posts_sent (stats s)"
  "last_post (stats (inc_yagpt_used s)) = last_post (stats s)"
  "yagpt_used (stats (inc_yagpt_used s)) = yagpt_used (stats s) + 1"
  "yagpt_errors (stats (inc_yagpt_used s)) = yagpt_errors (stats s)"
  by (simp_all add: inc_yagpt_used_def)

lemma inc_images_generated_fields [simp]:
  "sent_entries (inc_images_generated s) = sent_entries s"
  "trace (inc_images_generated s) = trace s"
  "calls (inc_images_generated s) = calls s" "now (inc_images_generated s) = now s"
  "errors (stats (inc_images_generated s)) = errors (stats s)"
  "posts_sent (stats (inc_images_generated s)) = posts_sent (stats s)"
  "last_post (stats (inc_images_generated s)) = last_post (stats s)"
  "yagpt_used (stats (inc_images_generated s)) = yagpt_used (stats s)"
  "yagpt_errors (stats (inc_images_generated s)) = yagpt_errors (stats s)"
  by (simp_all add: inc_images_generated_def)

lemma time_sleep_fields [simp]:
  "sent_entries (time_sleep d s) = sent_entries s" "stats (time_sleep d s) = stats s"
  "trace (time_sleep d s) = trace s @ [Sleep d]" "calls (time_sleep d s) = calls s"
  "now (time_sleep d s) = now s + d"
  by (simp_all add: time_sleep_def)

lemma stop_event_wait_fields [simp]:
  "sent_entries (stop_event_wait w n s) = sent_entries s"
  "stats (stop_event_wait w n s) = stats s"
  "calls (stop_event_wait w n s) = calls s"
  "now (stop_event_wait w n s) = event_wait (stop_is_set w) (nat n) (now s)"
  "sends (trace (stop_event_wait w n s)) = sends (trace s)"
  by (simp_all add: stop_event_wait_def Let_def sends_def)

lemma sends_append [simp]: "sends (xs @ ys) = sends xs @ sends ys"
  by (simp add: sends_def)

lemma sends_simps [simp]:
  "sends [] = []" "sends (e # es) = (if is_send e then e # sends es else sends es)"
  by (simp_all add: sends_def)

lemma no_publish_refl [simp]: "no_publish s s"
  by (simp add: no_publish_def)

lemma no_publish_trans: "no_publish s s1 \<Longrightarrow> no_publish s1 s2 \<Longrightarrow> no_publish s s2"
  by (simp add: no_publish_def)

lemma no_publish_steps [simp]:
  "no_publish s (ext w s)" "no_publish s (logger lv m s)"
  "no_publish s (inc_yagpt_errors s)" "no_publish s (inc_yagpt_used s)"
  "no_publish s (inc_images_generated s)" "no_publish s (time_sleep d s)"
  "no_publish s (stop_event_wait w n s)"
  by (simp_all add: no_publish_def)

lemma no_publish_after [simp]:
  "no_publish s (ext w s1) = no_publish s s1"
  "no_publish s (logger lv m s1) = no_publish s s1"
  "no_publish s (inc_yagpt_errors s1) = no_publish s s1"
  "no_publish s (inc_yagpt_used s1) = no_publish s s1"
  "no_publish s (inc_images_generated s1) = no_publish s s1"
  "no_publish s (time_sleep d s1) = no_publish s s1"
  "no_publish s (stop_event_wait w n s1) = no_publish s s1"
  by (simp_all add: no_publish_def)

lemma enhance_with_yagpt_no_publish:
  "no_publish s (snd (enhance_with_yagpt cfg w t d s))"
  by (auto simp: enhance_with_yagpt_def Let_def split: http_outcome.splits decode_outcome.splits)

lemma enhance_step_no_publish:
  "no_publish s (snd (enhance_step cfg w t d s))"
proof -
  obtain r s1 where e: "enhance_with_yagpt cfg w t d s = (r, s1)" by (cases "enhance_with_yagpt cfg w t d s")
  then have "no_publish s s1" using enhance_with_yagpt_no_publish [of s cfg w t d] by simp
  then show ?thesis using e
    by (auto simp: enhance_step_def split: option.splits sum.splits bool.splits)
qed

lemma generate_image_no_publish: "no_publish s (snd (generate_image w t s))"
  by (cases t) (auto simp: generate_image_def split: sum.splits)

lemma image_step_no_publish: "no_publish s (snd (image_step w t ot s))"
proof -
  let ?it = "if truthy t then t else JStr ot"
  obtain r s1 where e: "generate_image w ?it s = (r, s1)" by (cases "generate_image w ?it s")
  then have "no_publish s s1" using generate_image_no_publish [of s w ?it] by simp
  then show ?thesis using e
    by (auto simp: image_step_def Let_def split: option.splits)
qed

text \<open>
  \<open>format_message\<close> in steps: the enhancement, the shortening of the description, the
  image, the text of the message.
\<close>

lemma format_message_eq:
  "format_message cfg w e s =
     (case enhance_step cfg w (original_title e) (original_description e) s of
        ((ttl, descr), s1) \<Rightarrow>
          (case shorten_value descr of
             Inl ex \<Rightarrow> (Inl ex, s1)
           | Inr descr' \<Rightarrow>
               (case image_step w ttl (original_title e) s1 of
                  (image_path, s2) \<Rightarrow>
                    (case message_text w ttl descr' (link_or_empty e) of
                       Inl ex \<Rightarrow> (Inl ex, s2)
                     | Inr message \<Rightarrow> (Inr (message, image_path), s2)))))"
  unfolding format_message_def Let_def original_title_def original_description_def
    link_or_empty_def
  by (rule refl)

lemma format_message_no_publish: "no_publish s (snd (format_message cfg w e s))"
proof -
  let ?t = "original_title e"
  let ?d = "original_description e"
  obtain ttl descr s1 where a: "enhance_step cfg w ?t ?d s = ((ttl, descr), s1)"
    by (metis surj_pair)
  obtain ip s2 where b: "image_step w ttl ?t s1 = (ip, s2)" by (metis surj_pair)
  have 1: "no_publish s s1" using enhance_step_no_publish [of s cfg w ?t ?d] a by simp
  moreover have "no_publish s1 s2" using image_step_no_publish [of s1 w ttl ?t] b by simp
  ultimately have 2: "no_publish s s2" by (rule no_publish_trans)
  show ?thesis using 1 2 by (simp add: format_message_eq a b split: sum.splits)
qed

section \<open>What a publish adds to the trace\<close>

lemma send_links_append [simp]: "send_links (xs @ ys) = send_links xs @ send_links ys"
  by (simp add: send_links_def)

lemma entry_sends_shape:
  "entry_sends l evs \<Longrightarrow>
     sends evs = evs \<and> map link_of evs = replicate (length evs) l
     \<and> 1 \<le> length evs \<and> length evs \<le> 2"
  by (erule entry_sends.elims) auto

lemma entry_sends_links:
  "entry_sends l evs \<Longrightarrow> send_links evs = replicate (length evs) l"
  using entry_sends_shape [of l evs] by (simp add: send_links_def)

lemma bot_send_message_effect:
  assumes "bot_send_message cfg w l m s = (r, s')"
  shows "sent_entries s' = sent_entries s" "stats s' = stats s"
    "sends (trace s') = sends (trace s) @ [SendMessage l m (r = None)]"
  using assms by (auto simp: bot_send_message_def Let_def)

lemma photo_fallback_effect:
  assumes "photo_fallback cfg w l m e s = (r, s')"
  shows "sent_entries s' = sent_entries s" "stats s' = stats s"
    "sends (trace s') = sends (trace s) @ [SendMessage l m (r = None)]"
  using bot_send_message_effect [OF assms [unfolded photo_fallback_def]] by simp_all

lemma published_ext: "published l r (ext w s) s' \<Longrightarrow> published l r s s'"
  by (simp add: published_def)

lemma bot_send_message_published:
  "bot_send_message cfg w l m s = (r, s') \<Longrightarrow> published l r s s'"
  using bot_send_message_effect [of cfg w l m s r s']
  by (auto simp: published_def)

lemma send_with_photo_published:
  assumes "send_with_photo cfg w l m p s = (r, s')"
  shows "published l r s s'"
proof (cases "open_rb w (calls s) p")
  case (Some e)
  with assms have "photo_fallback cfg w l m e (ext w s) = (r, s')"
    by (simp add: send_with_photo_def)
  from photo_fallback_effect [OF this] show ?thesis by (auto simp: published_def)
next
  case None
  let ?s1 = "ext w s"
  let ?r1 = "send_photo w (calls ?s1) (CHANNEL_ID cfg) p m"
  let ?s2 = "emit (SendPhoto l p m (?r1 = None)) (ext w ?s1)"
  show ?thesis
  proof (cases ?r1)
    case (Some e)
    with None assms have "photo_fallback cfg w l m e ?s2 = (r, s')"
      by (simp add: send_with_photo_def Let_def)
    from photo_fallback_effect [OF this] Some show ?thesis by (auto simp: published_def)
  next
    case r1: None
    let ?r2 = "os_remove w (calls ?s2) p"
    let ?s3 = "emit (Remove p (?r2 = None)) (ext w ?s2)"
    show ?thesis
    proof (cases ?r2)
      case (Some e)
      with None r1 assms have "photo_fallback cfg w l m e ?s3 = (r, s')"
        by (simp add: send_with_photo_def Let_def)
      from photo_fallback_effect [OF this] r1 show ?thesis by (auto simp: published_def)
    next
      case r2: None
      with None r1 assms have "r = None" "s' = logger INFO (ascii ''Image sent and removed: '' @ p) ?s3"
        by (simp_all add: send_with_photo_def Let_def)
      with r1 show ?thesis by (auto simp: published_def)
    qed
  qed
qed

lemma publish_published:
  assumes "publish cfg w l m ip s = (r, s')"
  shows "published l r s s'"
proof (cases ip)
  case None
  with assms show ?thesis by (simp add: publish_def bot_send_message_published)
next
  case (Some p)
  show ?thesis
  proof (cases "p = []")
    case True
    with Some assms show ?thesis by (simp add: publish_def bot_send_message_published)
  next
    case False
    show ?thesis
    proof (cases "path_exists w (calls s) p")
      case True
      with Some False assms have "send_with_photo cfg w l m p (ext w s) = (r, s')"
        by (simp add: publish_def)
      then show ?thesis by (blast intro: published_ext send_with_photo_published)
    next
      case ne: False
      with Some False assms have "bot_send_message cfg w l m (ext w s) = (r, s')"
        by (simp add: publish_def)
      then show ?thesis by (blast intro: published_ext bot_send_message_published)
    qed
  qed
qed

section \<open>Entries that have been sent are not sent again\<close>

lemma send_links_simps [simp]:
  "send_links [] = []"
  "send_links (e # es) = (if is_send e then link_of e # send_links es else send_links es)"
  by (simp_all add: send_links_def)

lemma process_entry_skip:
  "link e = None \<or> (\<exists>l. link e = Some l \<and> l \<in> sent_entries s) \<Longrightarrow> process_entry cfg w e s = s"
  by (auto simp: process_entry_def)

lemma process_entry_eq:
  assumes "link e = Some l" "l \<notin> sent_entries s"
  shows "process_entry cfg w e s = process_new_entry cfg w e l s"
  using assms by (simp add: process_entry_def)

lemma process_new_entry_raised:
  assumes "format_message cfg w e s = (Inl ex, s1)"
  shows "process_new_entry cfg w e l s
           = inc_errors (logger ERROR (ascii ''Send error: '' @ str_exn ex) s1)"
  using assms by (simp add: process_new_entry_def)

lemma process_new_entry_formatted:
  assumes "format_message cfg w e s = (Inr (m, ip), s1)" "publish cfg w l m ip s1 = (r, s2)"
  shows "process_new_entry cfg w e l s =
     (case r of
        Some ex \<Rightarrow> inc_errors (logger ERROR (ascii ''Send error: '' @ str_exn ex) s2)
      | None \<Rightarrow>
          time_sleep 3
            (logger INFO (ascii ''Posted: '' @ l)
               (s2\<lparr>sent_entries := insert l (sent_entries s2),
                   stats := (stats s2)\<lparr>posts_sent := posts_sent (stats s2) + 1,
                                        last_post := Some (now s2)\<rparr>\<rparr>)))"
  using assms by (simp add: process_new_entry_def split: option.splits)

lemma process_new_entry_processed:
  "processed (returns (fst (format_message cfg w e s))) l s (process_new_entry cfg w e l s)"
proof -
  obtain fr s1 where fm: "format_message cfg w e s = (fr, s1)" by (metis surj_pair)
  have np: "no_publish s s1" using format_message_no_publish [of s cfg w e] fm by simp
  show ?thesis
  proof (cases fr)
    case (Inl ex)
    then show ?thesis using np fm process_new_entry_raised [of cfg w e s ex s1 l]
      by (simp add: processed_def no_publish_def returns_def)
  next
    case (Inr mp)
    obtain m ip where mp: "mp = (m, ip)" by (metis surj_pair)
    obtain r s2 where pb: "publish cfg w l m ip s1 = (r, s2)" by (metis surj_pair)
    have pd: "published l r s1 s2" using publish_published [OF pb] .
    then obtain evs where evs: "sends (trace s2) = sends (trace s1) @ evs" "entry_sends l evs"
      "is_ok_send (last evs) = (r = None)" "sent_entries s2 = sent_entries s1" "stats s2 = stats s1"
      by (auto simp: published_def)
    have ne: "evs \<noteq> []" using evs(2) by (cases evs) auto
    have eq: "process_new_entry cfg w e l s =
     (case r of
        Some ex \<Rightarrow> inc_errors (logger ERROR (ascii ''Send error: '' @ str_exn ex) s2)
      | None \<Rightarrow>
          time_sleep 3
            (logger INFO (ascii ''Posted: '' @ l)
               (s2\<lparr>sent_entries := insert l (sent_entries s2),
                   stats := (stats s2)\<lparr>posts_sent := posts_sent (stats s2) + 1,
                                        last_post := Some (now s2)\<rparr>\<rparr>)))"
      using fm Inr mp pb by (simp add: process_new_entry_formatted)
    have fl: "returns (fst (format_message cfg w e s))" using fm Inr by (simp add: returns_def)
    show ?thesis
    proof (cases r)
      case None
      then show ?thesis unfolding processed_def using np evs ne fl
        by (intro exI [of _ evs]) (simp add: eq no_publish_def)
    next
      case (Some ex)
      then show ?thesis unfolding processed_def using np evs ne fl
        by (intro exI [of _ evs]) (simp add: eq no_publish_def)
    qed
  qed
qed

lemma process_entry_new:
  assumes "link e = Some l" "l \<notin> sent_entries s"
  shows "processed (returns (fst (format_message cfg w e s))) l s (process_entry cfg w e s)"
  using process_new_entry_processed [of cfg w e s l] assms by (simp add: process_entry_eq)

lemma count_list_replicate_other: "x \<noteq> l \<Longrightarrow> count_list (replicate k l) x = 0"
  by (induction k) auto

lemma processed_send_links:
  assumes "processed b l s s'"
  shows "\<exists>k. (if b then 1 \<le> k else k = 0) \<and> k \<le> 2
            \<and> send_links (trace s') = send_links (trace s) @ replicate k l"
proof -
  from assms obtain evs where e: "sends (trace s') = sends (trace s) @ evs"
    "if b then entry_sends l evs else evs = []"
    by (auto simp: processed_def)
  show ?thesis
  proof (cases b)
    case True
    with e(2) have es: "entry_sends l evs" by simp
    from entry_sends_shape [OF es] e(1)
    have "send_links (trace s') = send_links (trace s) @ replicate (length evs) l"
      "1 \<le> length evs" "length evs \<le> 2"
      by (simp_all add: send_links_def)
    then show ?thesis using True by auto
  next
    case False
    with e have "send_links (trace s') = send_links (trace s) @ replicate 0 l"
      by (simp add: send_links_def)
    then show ?thesis using False by (intro exI [of _ 0]) simp
  qed
qed

lemma keeps_refl: "l \<in> sent_entries s \<Longrightarrow> keeps l s s"
  by (simp add: keeps_def)

lemma keeps_trans: "keeps l s s1 \<Longrightarrow> keeps l s1 s2 \<Longrightarrow> keeps l s s2"
  by (simp add: keeps_def)

lemma keeps_after [simp]:
  "keeps l s (ext w s1) = keeps l s s1"
  "keeps l s (logger lv m s1) = keeps l s s1"
  "keeps l s (inc_errors s1) = keeps l s s1"
  "keeps l s (time_sleep d s1) = keeps l s s1"
  by (simp_all add: keeps_def)

lemma keeps_wait [simp]: "keeps l s (stop_event_wait w n s1) = keeps l s s1"
  by (simp add: keeps_def send_links_def)

lemma process_entry_keeps:
  assumes "l \<in> sent_entries s"
  shows "keeps l s (process_entry cfg w e s)"
proof (cases "link e = None \<or> (\<exists>l'. link e = Some l' \<and> l' \<in> sent_entries s)")
  case True
  then show ?thesis using assms by (simp add: process_entry_skip keeps_refl)
next
  case False
  then obtain l' where l': "link e = Some l'" "l' \<notin> sent_entries s" by auto
  with assms have ne: "l \<noteq> l'" by auto
  have p: "processed (returns (fst (format_message cfg w e s))) l' s (process_entry cfg w e s)"
    using process_entry_new [OF l'] .
  from processed_send_links [OF p] obtain k where
    k: "send_links (trace (process_entry cfg w e s)) = send_links (trace s) @ replicate k l'"
    by blast
  have "l \<in> sent_entries (process_entry cfg w e s)"
    using p assms by (auto simp: processed_def split: if_splits)
  then show ?thesis using k ne by (simp add: keeps_def count_list_replicate_other)
qed

lemma process_entries_keeps:
  "l \<in> sent_entries s \<Longrightarrow> keeps l s (process_entries cfg w es s)"
proof (induction es arbitrary: s)
  case Nil
  then show ?case by (simp add: keeps_refl)
next
  case (Cons e es)
  show ?case
  proof (cases "stop_is_set w (now s)")
    case True
    then show ?thesis using Cons.prems by (simp add: keeps_refl)
  next
    case False
    have a: "keeps l s (process_entry cfg w e s)" using process_entry_keeps [OF Cons.prems] .
    then have "l \<in> sent_entries (process_entry cfg w e s)" by (simp add: keeps_def)
    from Cons.IH [OF this] a False show ?thesis by (auto intro: keeps_trans)
  qed
qed

lemma process_source_keeps:
  assumes "l \<in> sent_entries s"
  shows "keeps l s (process_source cfg w url s)"
proof (cases "feedparser_parse w (calls s) url")
  case (Inl e)
  then show ?thesis using assms by (simp add: process_source_def keeps_refl)
next
  case (Inr es)
  have "l \<in> sent_entries (ext w s)" using assms by simp
  from process_entries_keeps [OF this, of cfg w "rev (take 10 es)"]
  have "keeps l s (process_entries cfg w (rev (take 10 es)) (ext w s))"
    by (simp add: keeps_def)
  then show ?thesis using Inr assms by (simp add: process_source_def keeps_refl)
qed

lemma sweep_keeps:
  "l \<in> sent_entries s \<Longrightarrow> keeps l s (sweep cfg w urls s)"
proof (induction urls arbitrary: s)
  case Nil
  then show ?case by (simp add: keeps_refl)
next
  case (Cons url urls)
  show ?case
  proof (cases "stop_is_set w (now s)")
    case True
    then show ?thesis using Cons.prems by (simp add: keeps_refl)
  next
    case False
    have a: "keeps l s (process_source cfg w url s)" using process_source_keeps [OF Cons.prems] .
    then have "l \<in> sent_entries (process_source cfg w url s)" by (simp add: keeps_def)
    from Cons.IH [OF this] a False show ?thesis by (auto intro: keeps_trans)
  qed
qed

lemma visit_sources_keeps:
  assumes "l \<in> sent_entries s"
  shows "keeps l s (visit_sources cfg w s)"
proof -
  let ?s2 = "logger INFO
       (ascii ''Checking '' @ str_nat (length (RSS_URLS cfg)) @ ascii '' RSS feeds'') s"
  have k0: "keeps l s ?s2" using assms by (simp add: keeps_def)
  then have "l \<in> sent_entries ?s2" by (simp add: keeps_def)
  from sweep_keeps [OF this, of cfg w "RSS_URLS cfg"] k0
  have "keeps l s (sweep cfg w (RSS_URLS cfg) ?s2)" by (rule keeps_trans [rotated])
  then show ?thesis by (simp add: visit_sources_def Let_def)
qed

lemma record_check_fields [simp]:
  "sent_entries (record_check s) = sent_entries s" "trace (record_check s) = trace s"
  "calls (record_check s) = calls s" "now (record_check s) = now s"
  "errors (stats (record_check s)) = errors (stats s)"
  "posts_sent (stats (record_check s)) = posts_sent (stats s)"
  "last_check (stats (record_check s)) = Some (now s)"
  by (simp_all add: record_check_def)

lemma cycle_keeps:
  assumes "l \<in> sent_entries s"
  shows "keeps l s (cycle cfg w s)"
proof (cases "loop_fault w (calls s)")
  case (Some e)
  then show ?thesis using assms by (simp add: cycle_def keeps_def)
next
  case None
  have "l \<in> sent_entries (ext w (record_check s))" using assms by simp
  from visit_sources_keeps [OF this, of cfg w]
  have "keeps l s (visit_sources cfg w (ext w (record_check s)))" by (simp add: keeps_def)
  then show ?thesis using None by (simp add: cycle_def)
qed

lemma rss_while_keeps:
  "l \<in> sent_entries s \<Longrightarrow> keeps l s (snd (rss_while cfg w n s))"
proof (induction n arbitrary: s)
  case 0
  then show ?case by (simp add: keeps_refl)
next
  case (Suc n)
  show ?case
  proof (cases "running_at w (now s) \<and> \<not> stop_is_set w (now s)")
    case True
    have a: "keeps l s (cycle cfg w s)" using cycle_keeps [OF Suc.prems] .
    then have "l \<in> sent_entries (cycle cfg w s)" by (simp add: keeps_def)
    from Suc.IH [OF this] a True show ?thesis by (auto intro: keeps_trans)
  next
    case False
    then show ?thesis using Suc.prems by (auto simp: keeps_refl)
  qed
qed

lemma rss_loop_keeps:
  assumes "l \<in> sent_entries s"
  shows "keeps l s (snd (rss_loop cfg w n s))"
proof -
  let ?s0 = "logger INFO (ascii ''===== RSS LOOP STARTED ====='') s"
  have "l \<in> sent_entries ?s0" using assms by simp
  from rss_while_keeps [OF this, of cfg w n]
  show ?thesis by (simp add: rss_loop_def keeps_def)
qed

lemma runs_keeps:
  "l \<in> sent_entries s \<Longrightarrow> keeps l s (runs cfg rs s)"
proof (induction rs arbitrary: s)
  case Nil
  then show ?case by (simp add: keeps_refl)
next
  case (Cons r rs)
  obtain st w n where r: "r = (st, w, n)" by (metis surj_pair)
  let ?s0 = "s\<lparr>stats := st\<rparr>"
  have "l \<in> sent_entries ?s0" using Cons.prems by simp
  from rss_loop_keeps [OF this, of cfg w n]
  have a: "keeps l s (snd (rss_loop cfg w n ?s0))" by (simp add: keeps_def)
  then have "l \<in> sent_entries (snd (rss_loop cfg w n ?s0))" by (simp add: keeps_def)
  from Cons.IH [OF this] a show ?case by (auto simp: r intro: keeps_trans)
qed

section \<open>Unfolding the formatting and the processing of an entry\<close>

lemma re_sub_tags_plain: "60 \<notin> set t \<Longrightarrow> re_sub_tags t = t"
  by (induction t) auto

lemma clean_plain: "60 \<notin> set t \<Longrightarrow> clean t = t"
  by (simp add: clean_def re_sub_tags_plain)

lemma enhance_step_disabled:
  "\<not> yagpt_enabled cfg \<Longrightarrow> enhance_step cfg w t d s = ((JStr t, JStr d), s)"
  by (simp add: enhance_step_def)

lemma shorten_value_text [simp]: "shorten_value (JStr d) = Inr (JStr (shorten d))"
  by (simp add: shorten_value_def shorten_def)

lemma format_value_text [simp]: "format_value w (JStr t) = Inr t"
  by (simp add: format_value_def)

lemma message_text_text [simp]:
  "message_text w (JStr t) (JStr d) lnk = Inr (message_of t d lnk)"
  by (simp add: message_text_def)

lemma image_step_rendered:
  assumes "render_image w (calls s) (JStr (if t \<noteq> [] then t else ot)) = Inr p"
    and "p \<noteq> []" and "t \<noteq> [] \<or> ot \<noteq> []"
  shows "image_step w (JStr t) ot s =
     (Some p, logger INFO (ascii ''Image generated: '' @ p) (inc_images_generated (ext w s)))"
  using assms by (auto simp: image_step_def generate_image_def Let_def)

lemma image_step_failed:
  assumes "render_image w (calls s) (JStr (if t \<noteq> [] then t else ot)) = Inl ex"
    and "t \<noteq> [] \<or> ot \<noteq> []"
  shows "image_step w (JStr t) ot s =
     (None, logger WARNING (ascii ''Image generation returned no path'')
              (logger ERROR (ascii ''Image generation failed: '' @ str_exn ex) (ext w s)))"
  using assms by (auto simp: image_step_def generate_image_def Let_def)

lemma image_step_no_title: "image_step w (JStr []) [] s = (None, s)"
  by (simp add: image_step_def)

lemma photo_fails_facts:
  "\<not> yagpt_enabled plain_config"
  "render_image photo_fails_world n t = Inr (ascii ''p.jpg'')"
  "path_exists photo_fails_world n p"
  "open_rb photo_fails_world n p = None"
  "send_photo photo_fails_world n c p m = Some (Exception (ascii ''bad photo''))"
  "send_message photo_fails_world n c m = None"
  by (simp_all add: photo_fails_world_def quiet_world_def plain_config_def yagpt_enabled_def)

lemma entry_of_facts:
  "link (entry_of l) = Some (ascii l)"
  "original_title (entry_of l) = ascii ''T''"
  "original_description (entry_of l) = ascii ''D''"
  "link_or_empty (entry_of l) = ascii l"
  by (simp_all add: entry_of_def original_title_def original_description_def link_or_empty_def
      clean_plain ascii_def)

lemma init_state_fields [simp]:
  "sent_entries init_state = {}" "trace init_state = []" "calls init_state = 0"
  "now init_state = 0" "errors (stats init_state) = 0" "posts_sent (stats init_state) = 0"
  "yagpt_used (stats init_state) = 0" "yagpt_errors (stats init_state) = 0"
  by (simp_all add: init_state_def)

lemma ascii_nonempty [simp]: "ascii (c # cs) \<noteq> []"
  by (simp add: ascii_def)

section \<open>The processing of a new entry\<close>

lemma publish_succeeds:
  "(\<forall>n c m. send_message w n c m = None) \<Longrightarrow> fst (publish cfg w l m ip s) = None"
  by (auto simp: publish_def send_with_photo_def photo_fallback_def bot_send_message_def Let_def
      split: option.splits)

lemma process_entry_new_sets:
  assumes "link e = Some l" "l \<notin> sent_entries s"
  shows "\<exists>evs. sends (trace (process_entry cfg w e s)) = sends (trace s) @ evs
           \<and> (if returns (fst (format_message cfg w e s)) then entry_sends l evs else evs = [])
           \<and> sent_entries (process_entry cfg w e s) =
               (if evs \<noteq> [] \<and> is_ok_send (last evs) then insert l (sent_entries s)
                else sent_entries s)"
proof -
  from process_entry_new [OF assms, of cfg w]
  obtain evs where e: "sends (trace (process_entry cfg w e s)) = sends (trace s) @ evs"
    "if returns (fst (format_message cfg w e s)) then entry_sends l evs else evs = []"
    "if evs \<noteq> [] \<and> is_ok_send (last evs)
     then sent_entries (process_entry cfg w e s) = insert l (sent_entries s)
     else sent_entries (process_entry cfg w e s) = sent_entries s"
    unfolding processed_def by (auto split: if_splits)
  show ?thesis
    using e by (intro exI [of _ evs]) (simp split: if_splits)
qed

lemma process_entry_success:
  assumes "link e = Some l" "l \<notin> sent_entries s" "\<forall>n c m. send_message w n c m = None"
    and "returns (fst (format_message cfg w e s))"
  shows "\<exists>evs. sends (trace (process_entry cfg w e s)) = sends (trace s) @ evs
           \<and> entry_sends l evs \<and> is_ok_send (last evs)"
    and "sent_entries (process_entry cfg w e s) = insert l (sent_entries s)"
    and "posts_sent (stats (process_entry cfg w e s)) = posts_sent (stats s) + 1"
    and "errors (stats (process_entry cfg w e s)) = errors (stats s)"
    and "last (trace (process_entry cfg w e s)) = Sleep 3"
proof -
  obtain fr s1 where fm0: "format_message cfg w e s = (fr, s1)" by (metis surj_pair)
  with assms(4) obtain m ip where fm: "format_message cfg w e s = (Inr (m, ip), s1)"
    by (cases fr) (auto simp: returns_def)
  obtain r s2 where pb: "publish cfg w l m ip s1 = (r, s2)"
    by (metis surj_pair)
  have r: "r = None" using publish_succeeds [OF assms(3), of cfg l m ip s1] pb by simp
  have np: "no_publish s s1" using format_message_no_publish [of s cfg w e] fm by simp
  have pd: "published l None s1 s2" using publish_published [OF pb] r by simp
  have eq: "process_entry cfg w e s =
        time_sleep 3 (logger INFO (ascii ''Posted: '' @ l)
          (s2\<lparr>sent_entries := insert l (sent_entries s2),
              stats := (stats s2)\<lparr>posts_sent := posts_sent (stats s2) + 1,
                                   last_post := Some (now s2)\<rparr>\<rparr>))"
    using assms(1,2) r by (simp add: process_entry_eq process_new_entry_formatted [OF fm pb])
  show "\<exists>evs. sends (trace (process_entry cfg w e s)) = sends (trace s) @ evs
           \<and> entry_sends l evs \<and> is_ok_send (last evs)"
    using np pd by (auto simp: eq no_publish_def published_def)
  show "sent_entries (process_entry cfg w e s) = insert l (sent_entries s)"
    using np pd by (auto simp: eq no_publish_def published_def)
  show "posts_sent (stats (process_entry cfg w e s)) = posts_sent (stats s) + 1"
    using np pd by (auto simp: eq no_publish_def published_def)
  show "errors (stats (process_entry cfg w e s)) = errors (stats s)"
    using np pd by (auto simp: eq no_publish_def published_def)
  show "last (trace (process_entry cfg w e s)) = Sleep 3"
    by (simp add: eq)
qed

lemma recorded_ends_with_sleep:
  assumes "link e = Some l" "l \<notin> sent_entries s" "l \<in> sent_entries (process_entry cfg w e s)"
  shows "last (trace (process_entry cfg w e s)) = Sleep 3"
proof -
  obtain fr s1 where fm0: "format_message cfg w e s = (fr, s1)" by (metis surj_pair)
  have np: "no_publish s s1" using format_message_no_publish [of s cfg w e] fm0 by simp
  show ?thesis
  proof (cases fr)
    case (Inl ex)
    then have "sent_entries (process_entry cfg w e s) = sent_entries s"
      using assms(1,2) fm0 np
      by (simp add: process_entry_eq process_new_entry_raised no_publish_def)
    with assms show ?thesis by simp
  next
    case (Inr mp)
    obtain m ip where mp: "mp = (m, ip)" by (metis surj_pair)
    have fm: "format_message cfg w e s = (Inr (m, ip), s1)" using fm0 Inr mp by simp
    obtain r s2 where pb: "publish cfg w l m ip s1 = (r, s2)"
      by (metis surj_pair)
    have pd: "published l r s1 s2" using publish_published [OF pb] by simp
    show ?thesis
    proof (cases r)
      case None
      then show ?thesis using assms(1,2)
        by (simp add: process_entry_eq process_new_entry_formatted [OF fm pb])
    next
      case (Some ex)
      then have "sent_entries (process_entry cfg w e s) = sent_entries s"
        using assms(1,2) np pd
        by (simp add: process_entry_eq process_new_entry_formatted [OF fm pb] no_publish_def
            published_def)
      with assms show ?thesis by simp
    qed
  qed
qed

lemma already_sent_fields [simp]:
  "sent_entries already_sent_state = {ascii ''e1''}" "trace already_sent_state = []"
  by (simp_all add: already_sent_state_def)

section \<open>The three outcomes of a fetch\<close>


lemma process_source_empty:
  "feedparser_parse w (calls s) url = Inr [] \<Longrightarrow>
     process_source cfg w url s = logger WARNING (ascii ''Empty feed: '' @ url) (ext w s)"
  by (simp add: process_source_def)


lemma quiet_world_facts:
  "stop_is_set quiet_world t = False" "feedparser_parse quiet_world n url = Inr []"
  "latency quiet_world n = 0" "loop_fault quiet_world n = None"
  "send_message quiet_world n c m = None"
  by (simp_all add: quiet_world_def)

section \<open>Waiting and sleeping\<close>

lemma event_wait_bounds: "t \<le> event_wait f n t \<and> event_wait f n t \<le> t + n"
proof (induction n arbitrary: t)
  case 0
  then show ?case by simp
next
  case (Suc n)
  from Suc [of "Suc t"] show ?case by auto
qed

lemma event_wait_early: "t \<le> \<tau> \<Longrightarrow> f \<tau> \<Longrightarrow> event_wait f n t \<le> \<tau>"
proof (induction n arbitrary: t)
  case 0
  then show ?case by simp
next
  case (Suc n)
  show ?case
  proof (cases "f t")
    case True
    then show ?thesis using Suc.prems by simp
  next
    case False
    with Suc.prems have "Suc t \<le> \<tau>" by (metis Suc_leI le_neq_implies_less)
    from Suc.IH [OF this Suc.prems(2)] False show ?thesis by simp
  qed
qed

lemma event_wait_before_timeout:
  "event_wait f n t < t + n \<Longrightarrow> f (event_wait f n t)"
proof (induction n arbitrary: t)
  case 0
  then show ?case by simp
next
  case (Suc n)
  then show ?case by (cases "f t") auto
qed

lemma now_cycle_wait:
  "loop_fault w (calls s) = None \<Longrightarrow>
     now (cycle cfg w s) =
       event_wait (stop_is_set w) (nat (CHECK_INTERVAL cfg))
         (now (visit_sources cfg w (ext w (record_check s))))"
  by (simp add: cycle_def)

lemma now_cycle_cooldown:
  "loop_fault w (calls s) = Some ex \<Longrightarrow> now (cycle cfg w s) = now s + latency w (calls s) + 30"
  by (simp add: cycle_def)

lemma failed_cycle_records_check:
  "loop_fault w (calls s) = Some ex \<Longrightarrow>
     last_check (stats (cycle cfg w s)) = Some (now s) \<and> ctl_last_check (cycle cfg w s) = now s"
  by (simp add: cycle_def record_check_def inc_errors_def logger_def emit_def ext_def
      time_sleep_def)

lemma stop_at_5_facts:
  "stop_is_set stop_at_5_world t = (5 \<le> t)" "feedparser_parse stop_at_5_world n url = Inr []"
  "latency stop_at_5_world n = 0" "loop_fault stop_at_5_world n = None"
  "send_message stop_at_5_world n c m = None"
  by (simp_all add: stop_at_5_world_def quiet_world_def)

lemma faulty_facts:
  "stop_is_set faulty_world t = (1 \<le> t)" "latency faulty_world n = 0"
  "loop_fault faulty_world n = Some (Exception (ascii ''boom''))"
  by (simp_all add: faulty_world_def quiet_world_def)

lemma now_visit_stop_at_5:
  "now (visit_sources plain_config stop_at_5_world
          (ext stop_at_5_world (record_check init_state))) = 0"
  by (simp add: visit_sources_def Let_def plain_config_def stop_at_5_facts process_source_empty)

section \<open>The publish calls of a list of entries\<close>









section \<open>The outcomes of the enhancement\<close>

lemma enhance_with_yagpt_raises:
  assumes "yagpt_enabled cfg"
    and "requests_post w (calls s) t (shorten_input d) = RequestException m
         \<or> requests_post w (calls s) t (shorten_input d) = OtherException m"
  shows "\<exists>s1. enhance_with_yagpt cfg w t d s = (None, s1)
           \<and> yagpt_errors (stats s1) = yagpt_errors (stats s) + 1
           \<and> yagpt_used (stats s1) = yagpt_used (stats s)"
  using assms by (auto simp: enhance_with_yagpt_def)

lemma enhance_with_yagpt_decoder_raises:
  assumes "yagpt_enabled cfg"
    and "requests_post w (calls s) t (shorten_input d) = ResponseText rt"
    and "123 \<in> set rt" "125 \<in> set rt"
    and "json_loads w (json_slice rt) = DecodeRaises ex"
  shows "\<exists>s1. enhance_with_yagpt cfg w t d s = (None, s1)
           \<and> yagpt_errors (stats s1) = yagpt_errors (stats s) + 1
           \<and> yagpt_used (stats s1) = yagpt_used (stats s)"
  using assms by (auto simp: enhance_with_yagpt_def)

lemma enhance_with_yagpt_stats:
  assumes "enhance_with_yagpt cfg w t d s = (r, s1)"
  shows "yagpt_used (stats s1) = yagpt_used (stats s)"
    and "r \<noteq> None \<Longrightarrow> yagpt_errors (stats s1) = yagpt_errors (stats s)"
    and "r \<noteq> None \<Longrightarrow> yagpt_enabled cfg"
    and "r \<noteq> None \<Longrightarrow> trace s1 = trace s"
  using assms
  by (auto simp: enhance_with_yagpt_def split: if_splits http_outcome.splits decode_outcome.splits)

lemma enhance_with_yagpt_candidate:
  assumes "enhance_with_yagpt cfg w t d s = (Some en, s1)"
  shows "\<exists>rt dict. requests_post w (calls s) t (shorten_input d) = ResponseText rt
           \<and> json_loads w (json_slice rt) = Decoded dict
           \<and> new_title en = dict_get dict (ascii ''title'') (JStr t)
           \<and> new_description en = dict_get dict (ascii ''description'') (JStr (shorten_input d))
           \<and> s1 = ext w s"
  using assms
  by (auto simp: enhance_with_yagpt_def split: if_splits http_outcome.splits decode_outcome.splits)

lemma image_step_stats:
  "yagpt_used (stats (snd (image_step w t ot s))) = yagpt_used (stats s)"
  "yagpt_errors (stats (snd (image_step w t ot s))) = yagpt_errors (stats s)"
  by (auto simp: image_step_def generate_image_def Let_def split: sum.splits jval.splits)

lemma validate_accepts:
  "validate nt nd = Inr True \<longleftrightarrow>
     (\<exists>lt ld. py_len nt = Inr lt \<and> py_len nd = Inr ld
        \<and> 10 < lt \<and> lt < 120 \<and> 30 < ld \<and> ld < 600)"
  by (cases nt; cases nd) (auto simp: validate_def)

lemma validate_text:
  "validate (JStr t) (JStr d) =
     Inr (10 < length t \<and> length t < 120 \<and> 30 < length d \<and> length d < 600)"
  by (auto simp: validate_def)

lemma py_len_text: "py_len v = Inr n \<Longrightarrow> \<not> is_container v \<Longrightarrow> \<exists>t. v = JStr t"
  by (cases v) auto

lemma enhance_step_none:
  assumes "enhance_with_yagpt cfg w t d s = (None, s1)"
  shows "enhance_step cfg w t d s = ((JStr t, JStr d), s1)"
proof (cases "yagpt_enabled cfg")
  case True
  with assms show ?thesis by (simp add: enhance_step_def)
next
  case False
  with assms have "s1 = s" by (simp add: enhance_with_yagpt_def)
  with False show ?thesis by (simp add: enhance_step_def)
qed

lemma enhance_step_some:
  assumes "enhance_with_yagpt cfg w t d s = (Some en, s1)"
  shows "enhance_step cfg w t d s =
     (case validate (new_title en) (new_description en) of
        Inl ex \<Rightarrow>
          ((JStr t, JStr d),
           inc_yagpt_errors
             (logger ERROR (ascii ''YandexGPT integration error: '' @ str_exn ex) s1))
      | Inr True \<Rightarrow>
          ((new_title en, new_description en),
           logger INFO (ascii ''YandexGPT enhancement applied'') (inc_yagpt_used s1))
      | Inr False \<Rightarrow>
          ((JStr t, JStr d), logger WARNING (ascii ''YandexGPT output validation failed'') s1))"
  using assms enhance_with_yagpt_stats(3) [OF assms] by (simp add: enhance_step_def)

text \<open>The result of \<open>format_message\<close> from the result of the enhancement.\<close>

lemma format_message_parts:
  assumes "enhance_step cfg w (original_title e) (original_description e) s = ((ttl, descr), s1)"
  shows "message_part (fst (format_message cfg w e s)) =
           (case shorten_value descr of
              Inl ex \<Rightarrow> Inl ex
            | Inr v \<Rightarrow> message_text w ttl v (link_or_empty e))"
    and "yagpt_used (stats (snd (format_message cfg w e s))) = yagpt_used (stats s1)"
    and "yagpt_errors (stats (snd (format_message cfg w e s))) = yagpt_errors (stats s1)"
proof -
  obtain ip s2 where im: "image_step w ttl (original_title e) s1 = (ip, s2)"
    by (metis surj_pair)
  have st: "yagpt_used (stats s2) = yagpt_used (stats s1)"
    "yagpt_errors (stats s2) = yagpt_errors (stats s1)"
    using image_step_stats [of w ttl "original_title e" s1] im by simp_all
  show "message_part (fst (format_message cfg w e s)) =
           (case shorten_value descr of
              Inl ex \<Rightarrow> Inl ex
            | Inr v \<Rightarrow> message_text w ttl v (link_or_empty e))"
    by (simp add: format_message_eq assms im message_part_def split: sum.splits)
  show "yagpt_used (stats (snd (format_message cfg w e s))) = yagpt_used (stats s1)"
    using st by (simp add: format_message_eq assms im split: sum.splits)
  show "yagpt_errors (stats (snd (format_message cfg w e s))) = yagpt_errors (stats s1)"
    using st by (simp add: format_message_eq assms im split: sum.splits)
qed

lemma format_message_original:
  assumes "enhance_step cfg w (original_title e) (original_description e) s
             = ((JStr (original_title e), JStr (original_description e)), s1)"
  shows "message_part (fst (format_message cfg w e s)) = Inr (original_message e)"
  using format_message_parts(1) [OF assms] by (simp add: original_message_def)

lemma format_message_rejected:
  assumes "enhance_with_yagpt cfg w (original_title e) (original_description e) s = (Some en, s1)"
    and "validate (new_title en) (new_description en) = Inr False"
  shows "message_part (fst (format_message cfg w e s)) = Inr (original_message e)"
    and "yagpt_used (stats (snd (format_message cfg w e s))) = yagpt_used (stats s)"
    and "yagpt_errors (stats (snd (format_message cfg w e s))) = yagpt_errors (stats s)"
proof -
  let ?s2 = "logger WARNING (ascii ''YandexGPT output validation failed'') s1"
  have es: "enhance_step cfg w (original_title e) (original_description e) s
      = ((JStr (original_title e), JStr (original_description e)), ?s2)"
    using enhance_step_some [OF assms(1)] assms(2) by simp
  note st = enhance_with_yagpt_stats [OF assms(1)]
  show "message_part (fst (format_message cfg w e s)) = Inr (original_message e)"
    using es by (rule format_message_original)
  show "yagpt_used (stats (snd (format_message cfg w e s))) = yagpt_used (stats s)"
    using format_message_parts(2) [OF es] st by simp
  show "yagpt_errors (stats (snd (format_message cfg w e s))) = yagpt_errors (stats s)"
    using format_message_parts(3) [OF es] st by simp
qed

lemma format_message_type_error:
  assumes "enhance_with_yagpt cfg w (original_title e) (original_description e) s = (Some en, s1)"
    and "validate (new_title en) (new_description en) = Inl ex"
  shows "message_part (fst (format_message cfg w e s)) = Inr (original_message e)"
    and "yagpt_used (stats (snd (format_message cfg w e s))) = yagpt_used (stats s)"
    and "yagpt_errors (stats (snd (format_message cfg w e s))) = yagpt_errors (stats s) + 1"
proof -
  let ?s2 = "inc_yagpt_errors
       (logger ERROR (ascii ''YandexGPT integration error: '' @ str_exn ex) s1)"
  have es: "enhance_step cfg w (original_title e) (original_description e) s
      = ((JStr (original_title e), JStr (original_description e)), ?s2)"
    using enhance_step_some [OF assms(1)] assms(2) by simp
  note st = enhance_with_yagpt_stats [OF assms(1)]
  show "message_part (fst (format_message cfg w e s)) = Inr (original_message e)"
    using es by (rule format_message_original)
  show "yagpt_used (stats (snd (format_message cfg w e s))) = yagpt_used (stats s)"
    using format_message_parts(2) [OF es] st by simp
  show "yagpt_errors (stats (snd (format_message cfg w e s))) = yagpt_errors (stats s) + 1"
    using format_message_parts(3) [OF es] st by simp
qed

lemma format_message_accepted:
  assumes "enhance_with_yagpt cfg w (original_title e) (original_description e) s = (Some en, s1)"
    and "validate (new_title en) (new_description en) = Inr True"
  shows "message_part (fst (format_message cfg w e s)) =
           (case shorten_value (new_description en) of
              Inl ex \<Rightarrow> Inl ex
            | Inr v \<Rightarrow> message_text w (new_title en) v (link_or_empty e))"
    and "yagpt_used (stats (snd (format_message cfg w e s))) = yagpt_used (stats s) + 1"
    and "yagpt_errors (stats (snd (format_message cfg w e s))) = yagpt_errors (stats s)"
proof -
  let ?s2 = "logger INFO (ascii ''YandexGPT enhancement applied'') (inc_yagpt_used s1)"
  have es: "enhance_step cfg w (original_title e) (original_description e) s
      = ((new_title en, new_description en), ?s2)"
    using enhance_step_some [OF assms(1)] assms(2) by simp
  note st = enhance_with_yagpt_stats [OF assms(1)]
  show "message_part (fst (format_message cfg w e s)) =
           (case shorten_value (new_description en) of
              Inl ex \<Rightarrow> Inl ex
            | Inr v \<Rightarrow> message_text w (new_title en) v (link_or_empty e))"
    using format_message_parts(1) [OF es] .
  show "yagpt_used (stats (snd (format_message cfg w e s))) = yagpt_used (stats s) + 1"
    using format_message_parts(2) [OF es] st by simp
  show "yagpt_errors (stats (snd (format_message cfg w e s))) = yagpt_errors (stats s)"
    using format_message_parts(3) [OF es] st by simp
qed

lemma format_message_absent:
  assumes "enhance_with_yagpt cfg w (original_title e) (original_description e) s = (None, s1)"
  shows "message_part (fst (format_message cfg w e s)) = Inr (original_message e)"
    and "yagpt_used (stats (snd (format_message cfg w e s))) = yagpt_used (stats s)"
    and "yagpt_errors (stats (snd (format_message cfg w e s))) = yagpt_errors (stats s1)"
proof -
  note es = enhance_step_none [OF assms]
  note st = enhance_with_yagpt_stats [OF assms]
  show "message_part (fst (format_message cfg w e s)) = Inr (original_message e)"
    using es by (rule format_message_original)
  show "yagpt_used (stats (snd (format_message cfg w e s))) = yagpt_used (stats s)"
    using format_message_parts(2) [OF es] st by simp
  show "yagpt_errors (stats (snd (format_message cfg w e s))) = yagpt_errors (stats s1)"
    using format_message_parts(3) [OF es] by simp
qed

text \<open>
  When the enhancement is off, or no reply has a list or a dict as its title or
  description, the title and the description that leave the enhancement are strings and
  \<open>format_message\<close> returns.
\<close>

lemma enhance_step_text:
  assumes "\<not> yagpt_enabled cfg \<or> plain_replies w"
  shows "\<exists>t' d'. fst (enhance_step cfg w t d s) = (JStr t', JStr d')"
proof (cases "yagpt_enabled cfg")
  case False
  then show ?thesis by (simp add: enhance_step_def)
next
  case True
  with assms have pr: "plain_replies w" by simp
  obtain r s1 where en: "enhance_with_yagpt cfg w t d s = (r, s1)" by (metis surj_pair)
  show ?thesis
  proof (cases r)
    case None
    with en show ?thesis by (simp add: enhance_step_none)
  next
    case (Some c)
    with en have en': "enhance_with_yagpt cfg w t d s = (Some c, s1)" by simp
    from enhance_with_yagpt_candidate [OF en'] obtain rt dict where
      c: "json_loads w (json_slice rt) = Decoded dict"
         "new_title c = dict_get dict (ascii ''title'') (JStr t)"
         "new_description c = dict_get dict (ascii ''description'') (JStr (shorten_input d))"
      by blast
    have nc: "\<not> is_container (new_title c)" "\<not> is_container (new_description c)"
      using pr c unfolding plain_replies_def dict_get_def
      by (auto split: option.splits)
    show ?thesis
    proof (cases "validate (new_title c) (new_description c) = Inr True")
      case True
      then obtain lt ld where "py_len (new_title c) = Inr lt" "py_len (new_description c) = Inr ld"
        by (auto simp: validate_accepts)
      with nc obtain t' d' where "new_title c = JStr t'" "new_description c = JStr d'"
        using py_len_text by blast
      with True show ?thesis by (simp add: enhance_step_some [OF en'])
    next
      case False
      then show ?thesis
        by (cases "validate (new_title c) (new_description c)")
           (auto simp: enhance_step_some [OF en'] split: bool.splits)
    qed
  qed
qed

lemma returns_message_part: "returns r \<longleftrightarrow> (\<exists>m. message_part r = Inr m)"
  by (cases r) (auto simp: returns_def message_part_def)

lemma format_message_returns:
  assumes "\<not> yagpt_enabled cfg \<or> plain_replies w"
  shows "returns (fst (format_message cfg w e s))"
proof -
  obtain ttl descr s1 where
    es: "enhance_step cfg w (original_title e) (original_description e) s = ((ttl, descr), s1)"
    by (metis surj_pair)
  from enhance_step_text [OF assms, of "original_title e" "original_description e" s] es
  obtain t' d' where "ttl = JStr t'" "descr = JStr d'" by auto
  with format_message_parts(1) [OF es] show ?thesis
    by (simp add: returns_message_part)
qed

lemma image_step_trace: "\<exists>evs. trace (snd (image_step w t ot s)) = trace s @ evs"
  by (auto simp: image_step_def generate_image_def Let_def split: sum.splits jval.splits)

lemma format_message_trace:
  assumes "enhance_step cfg w (original_title e) (original_description e) s = ((ttl, descr), s1)"
  shows "\<exists>evs. trace (snd (format_message cfg w e s)) = trace s1 @ evs"
proof -
  obtain ip s2 where im: "image_step w ttl (original_title e) s1 = (ip, s2)"
    by (metis surj_pair)
  from image_step_trace [of w ttl "original_title e" s1] im
  obtain evs where "trace s2 = trace s1 @ evs" by auto
  then show ?thesis
    by (auto simp: format_message_eq assms im split: sum.splits)
qed

lemma format_message_rejected_log:
  assumes "enhance_with_yagpt cfg w (original_title e) (original_description e) s = (Some en, s1)"
    and "validate (new_title en) (new_description en) = Inr False"
  shows "\<exists>evs. trace (snd (format_message cfg w e s))
           = trace s @ [Log WARNING (ascii ''YandexGPT output validation failed'')] @ evs"
proof -
  let ?s2 = "logger WARNING (ascii ''YandexGPT output validation failed'') s1"
  have es: "enhance_step cfg w (original_title e) (original_description e) s
      = ((JStr (original_title e), JStr (original_description e)), ?s2)"
    using enhance_step_some [OF assms(1)] assms(2) by simp
  from format_message_trace [OF es] enhance_with_yagpt_stats(4) [OF assms(1)]
  show ?thesis by simp
qed

section \<open>Facts about the concrete configurations and worlds\<close>

lemma yagpt_config_enabled: "yagpt_enabled yagpt_config"
  by (simp add: yagpt_config_def plain_config_def yagpt_enabled_def)

lemma plain_config_disabled: "\<not> yagpt_enabled plain_config"
  by (simp add: plain_config_def yagpt_enabled_def)

text \<open>A text that begins with an opening brace and ends with a closing one is decoded whole.\<close>

lemma json_slice_braces: "json_slice (123 # xs @ [125]) = 123 # xs @ [125]"
  by (simp add: json_slice_def json_start_def json_end_def)

lemma reply_text_braces: "\<exists>xs. reply_text nt dtext = 123 # xs @ [125]"
  by (simp add: reply_text_def)

lemma reply_text_slice:
  "json_slice (reply_text nt dtext) = reply_text nt dtext"
  "123 \<in> set (reply_text nt dtext)" "125 \<in> set (reply_text nt dtext)"
proof -
  obtain xs where xs: "reply_text nt dtext = 123 # xs @ [125]"
    using reply_text_braces by blast
  show "json_slice (reply_text nt dtext) = reply_text nt dtext"
    unfolding xs by (rule json_slice_braces)
  show "123 \<in> set (reply_text nt dtext)" "125 \<in> set (reply_text nt dtext)"
    unfolding xs by simp_all
qed

lemma enhance_with_yagpt_decoded:
  assumes "yagpt_enabled cfg"
    and "requests_post w (calls s) t (shorten_input d) = ResponseText rt"
    and "123 \<in> set rt" "125 \<in> set rt"
    and "json_loads w (json_slice rt) = Decoded dict"
  shows "enhance_with_yagpt cfg w t d s =
     (Some \<lparr>new_title = dict_get dict (ascii ''title'') (JStr t),
            new_description = dict_get dict (ascii ''description'') (JStr (shorten_input d))\<rparr>,
      ext w s)"
  using assms by (simp add: enhance_with_yagpt_def)

lemma reply_dict:
  "dict_get [ascii ''title'' \<mapsto> JStr nt, ascii ''description'' \<mapsto> dval] (ascii ''title'') x
     = JStr nt"
  "dict_get [ascii ''title'' \<mapsto> JStr nt, ascii ''description'' \<mapsto> dval] (ascii ''description'') x
     = dval"
proof -
  have d: "ascii ''title'' \<noteq> ascii ''description''" by (simp add: ascii_def)
  show "dict_get [ascii ''title'' \<mapsto> JStr nt, ascii ''description'' \<mapsto> dval] (ascii ''title'') x
     = JStr nt"
    using d by (simp add: dict_get_def)
  show "dict_get [ascii ''title'' \<mapsto> JStr nt, ascii ''description'' \<mapsto> dval]
          (ascii ''description'') x = dval"
    by (simp add: dict_get_def)
qed

lemma reply_world_enhance:
  "enhance_with_yagpt yagpt_config (reply_world nt dtext dval) t d s =
     (Some \<lparr>new_title = JStr nt, new_description = dval\<rparr>, ext (reply_world nt dtext dval) s)"
proof -
  let ?w = "reply_world nt dtext dval"
  have a: "requests_post ?w (calls s) t (shorten_input d) = ResponseText (reply_text nt dtext)"
    by (simp add: reply_world_def quiet_world_def)
  have c: "json_loads ?w (json_slice (reply_text nt dtext))
      = Decoded [ascii ''title'' \<mapsto> JStr nt, ascii ''description'' \<mapsto> dval]"
    by (simp add: reply_world_def quiet_world_def reply_text_slice)
  show ?thesis
    using enhance_with_yagpt_decoded [OF yagpt_config_enabled a reply_text_slice(2,3) c]
    by (simp add: reply_dict)
qed

lemma text_reply_world_enhance:
  "enhance_with_yagpt yagpt_config (text_reply_world nt nd) t d s =
     (Some \<lparr>new_title = JStr nt, new_description = JStr nd\<rparr>, ext (text_reply_world nt nd) s)"
  unfolding text_reply_world_def by (rule reply_world_enhance)

lemma array_reply_world_enhance:
  "enhance_with_yagpt yagpt_config (array_reply_world nt n) t d s =
     (Some \<lparr>new_title = JStr nt, new_description = JArr (replicate n (JNum 0))\<rparr>,
      ext (array_reply_world nt n) s)"
proof -
  let ?w = "array_reply_world nt n"
  have a: "requests_post ?w (calls s) t (shorten_input d)
      = ResponseText (reply_text nt (zeros_text n))"
    by (simp add: array_reply_world_def reply_world_def quiet_world_def)
  have c: "json_loads ?w (json_slice (reply_text nt (zeros_text n)))
      = Decoded [ascii ''title'' \<mapsto> JStr nt, ascii ''description'' \<mapsto> JArr (replicate n (JNum 0))]"
    by (simp add: array_reply_world_def reply_world_def quiet_world_def reply_text_slice)
  show ?thesis
    using enhance_with_yagpt_decoded [OF yagpt_config_enabled a reply_text_slice(2,3) c]
    by (simp add: reply_dict)
qed

lemma array_reply_world_repr:
  "format_value (array_reply_world nt n) (JArr (replicate n (JNum 0))) = Inr (zeros_text n)"
  by (simp add: format_value_def array_reply_world_def)

lemma validate_short_title:
  "validate (JStr (ascii ''Short'')) (JStr (replicate 40 120)) = Inr False"
  by (simp add: validate_def ascii_def)

lemma clean_no_title: "clean (ascii ''No title'') = ascii ''No title''"
  by (rule clean_plain) (simp add: ascii_def)

lemma clean_empty: "clean [] = []"
  by (simp add: clean_def)

lemma bare_entry_fields:
  "title bare_entry = None" "description bare_entry = None" "link bare_entry = None"
  by (simp_all add: bare_entry_def)

lemma bare_entry_original:
  "original_title bare_entry = ascii ''No title''" "original_description bare_entry = []"
  "link_or_empty bare_entry = []"
  by (simp_all add: original_title_def original_description_def link_or_empty_def
      bare_entry_fields clean_no_title clean_empty)


text \<open>
  A title of 20 letters and a description that is an array of 501 numbers pass the check
  of the lengths; the shortening of the description then raises.
\<close>

lemma validate_long_array:
  "validate (JStr (replicate 20 65)) (JArr (replicate 501 (JNum 0))) = Inr True"
  by (simp add: validate_def)

lemma format_message_long_array:
  "fst (format_message yagpt_config (array_reply_world (replicate 20 65) 501) e s)
     = Inl (Exception (ascii ''can only concatenate list (not '' @ [34] @ ascii ''str''
                       @ [34] @ ascii '') to list''))"
proof -
  let ?w = "array_reply_world (replicate 20 65) 501"
  let ?c = "\<lparr>new_title = JStr (replicate 20 65), new_description = JArr (replicate 501 (JNum 0))\<rparr>"
  have en: "enhance_with_yagpt yagpt_config ?w (original_title e) (original_description e) s
      = (Some ?c, ext ?w s)"
    by (rule array_reply_world_enhance)
  have es: "enhance_step yagpt_config ?w (original_title e) (original_description e) s
      = ((JStr (replicate 20 65), JArr (replicate 501 (JNum 0))),
         logger INFO (ascii ''YandexGPT enhancement applied'') (inc_yagpt_used (ext ?w s)))"
    using enhance_step_some [OF en] validate_long_array by simp
  have sh: "shorten_value (JArr (replicate 501 (JNum 0)))
      = Inl (Exception (ascii ''can only concatenate list (not '' @ [34] @ ascii ''str''
                        @ [34] @ ascii '') to list''))"
    by (simp add: shorten_value_def)
  show ?thesis
    by (simp add: format_message_eq es sh)
qed

section \<open>Start and stop\<close>

lemma one_worker_start: "one_worker sys \<Longrightarrow> one_worker (snd (start t sys))"
  by (auto simp: one_worker_def start_def split: option.splits if_splits)

lemma one_worker_stop: "one_worker sys \<Longrightarrow> one_worker (snd (stop True sys))"
  by (auto simp: one_worker_def stop_def split: option.splits if_splits)

lemma one_worker_run:
  "joins_complete cs \<Longrightarrow> one_worker sys \<Longrightarrow> one_worker (run_commands cs sys)"
proof (induction cs arbitrary: sys)
  case Nil
  then show ?case by simp
next
  case (Cons c cs)
  show ?case
  proof (cases c)
    case (Start t)
    with Cons show ?thesis by (simp add: one_worker_start)
  next
    case (Stop j)
    with Cons show ?thesis by (simp add: one_worker_stop)
  qed
qed

lemma one_worker_length: "one_worker sys \<Longrightarrow> length (alive sys) \<le> 1"
  by (auto simp: one_worker_def split: option.splits if_splits)

lemma one_worker_init: "one_worker init_system"
  by (simp add: one_worker_def init_system_def)

text \<open>
  Claim C2, as the code has it. \<open>start\<close> on a running controller returns \<open>False\<close> and
  changes nothing, so no worker is started; on a stopped controller it returns \<open>True\<close>,
  clears the stop event, sets the running flag and starts exactly one worker. \<open>stop\<close> on a
  stopped controller returns \<open>False\<close> and changes nothing; on a running one it returns
  \<open>True\<close>, sets the stop event, clears the running flag and starts no worker. When the
  join of every \<open>stop\<close> has completed, at most one worker exists after any sequence of
  commands.
\<close>

theorem start_stop_exclusive:
  "(is_running (ctl sys) \<longrightarrow> start t sys = (False, sys))
   \<and> (\<not> is_running (ctl sys) \<longrightarrow>
        fst (start t sys)
        \<and> is_running (ctl (snd (start t sys)))
        \<and> \<not> stop_event (ctl (snd (start t sys)))
        \<and> alive (snd (start t sys)) = alive sys @ [spawned sys]
        \<and> spawned (snd (start t sys)) = Suc (spawned sys))
   \<and> (\<not> is_running (ctl sys) \<longrightarrow> stop j sys = (False, sys))
   \<and> (is_running (ctl sys) \<longrightarrow>
        fst (stop j sys)
        \<and> stop_event (ctl (snd (stop j sys)))
        \<and> \<not> is_running (ctl (snd (stop j sys)))
        \<and> spawned (snd (stop j sys)) = spawned sys)
   \<and> (joins_complete cs \<longrightarrow> length (alive (run_commands cs init_system)) \<le> 1)"
proof -
  have "joins_complete cs \<longrightarrow> length (alive (run_commands cs init_system)) \<le> 1"
    using one_worker_run [OF _ one_worker_init] one_worker_length by blast
  then show ?thesis by (simp add: start_def stop_def)
qed

text \<open>
  The theorem at the initial system: a second \<open>start\<close> fails, a \<open>stop\<close> before any
  \<open>start\<close> fails, and a restart whose join has completed leaves one worker.
\<close>

theorem start_stop_exclusive_witness:
  "start 7 (snd (start 0 init_system)) = (False, snd (start 0 init_system))
   \<and> fst (start 0 init_system)
   \<and> alive (snd (start 0 init_system)) = [0]
   \<and> stop True init_system = (False, init_system)
   \<and> fst (stop True (snd (start 0 init_system)))
   \<and> joins_complete [Start 0, Start 1, Stop True, Start 2]
   \<and> length (alive (run_commands [Start 0, Start 1, Stop True, Start 2] init_system)) \<le> 1"
  using start_stop_exclusive [of "snd (start 0 init_system)" 7 True "[Start 0, Start 1, Stop True, Start 2]"]
    start_stop_exclusive [of init_system 0 True "[]"]
  by (simp add: start_def stop_def init_system_def)

text \<open>
  Claim C2 as stated fails. A \<open>stop\<close> whose join times out leaves the worker alive; the
  next \<open>start\<close> clears the stop event and starts a second worker, and the first worker,
  reaching the test of its loop, finds it true and goes on: two workers exist.
\<close>

theorem two_workers_after_restart:
  "alive (run_commands [Start 0, Stop False, Start 10] init_system) = [0, 1]
   \<and> loop_test (ctl (run_commands [Start 0, Stop False, Start 10] init_system))
   \<and> alive (worker_reaches_test 0 (run_commands [Start 0, Stop False, Start 10] init_system))
       = [0, 1]"
  by (simp add: start_def stop_def init_system_def loop_test_def worker_reaches_test_def)

text \<open>
  Claim C5 at a controller stopped after a run that has posted: \<open>start\<close> succeeds and
  sets the counters to zero, and \<open>last_post\<close> keeps the time of the last post of the run
  before.
\<close>

theorem start_keeps_last_post:
  "fst (start 100 stopped_after_run)
   \<and> posts_sent (sys_stats (snd (start 100 stopped_after_run))) = 0
   \<and> errors (sys_stats (snd (start 100 stopped_after_run))) = 0
   \<and> images_generated (sys_stats (snd (start 100 stopped_after_run))) = 0
   \<and> last_post (sys_stats (snd (start 100 stopped_after_run))) = Some 42"
  by (simp add: start_def stopped_after_run_def)

section \<open>Claims about the set of sent entries\<close>

text \<open>
  Claim C1, as the code has it. An entry without a link, or whose link is in the set of
  sent entries, is skipped: the state does not change. The processing of an entry with a
  new link \<open>l\<close> adds the publish calls of one entry, all for \<open>l\<close> (a text message, a
  photo, or a photo followed by the text message of the handler), or none when the
  formatting of the entry raised, and records \<open>l\<close> exactly when the last of these calls
  succeeded. A link that is in the set of sent entries stays there, and a worker that
  runs alone makes no publish call for it again: not in any iteration of its loop, and
  not in the runs of the workers that are started after it has returned, whatever the
  statistics they begin with.
\<close>

theorem sent_entries_not_sent_again:
  "(link e = None \<or> (\<exists>l'. link e = Some l' \<and> l' \<in> sent_entries s)
      \<longrightarrow> process_entry cfg w e s = s)
   \<and> (link e = Some l \<and> l \<notin> sent_entries s \<longrightarrow>
        (\<exists>evs. sends (trace (process_entry cfg w e s)) = sends (trace s) @ evs
           \<and> (if returns (fst (format_message cfg w e s)) then entry_sends l evs else evs = [])
           \<and> sent_entries (process_entry cfg w e s) =
               (if evs \<noteq> [] \<and> is_ok_send (last evs) then insert l (sent_entries s)
                else sent_entries s)))
   \<and> (l \<in> sent_entries s \<longrightarrow>
        l \<in> sent_entries (snd (rss_loop cfg w n s))
        \<and> count_list (send_links (trace (snd (rss_loop cfg w n s)))) l
            = count_list (send_links (trace s)) l)
   \<and> (l \<in> sent_entries s \<longrightarrow>
        l \<in> sent_entries (runs cfg rs s)
        \<and> count_list (send_links (trace (runs cfg rs s))) l
            = count_list (send_links (trace s)) l)"
proof (intro conjI impI)
  assume "link e = None \<or> (\<exists>l'. link e = Some l' \<and> l' \<in> sent_entries s)"
  then show "process_entry cfg w e s = s" by (rule process_entry_skip)
next
  assume "link e = Some l \<and> l \<notin> sent_entries s"
  then show "\<exists>evs. sends (trace (process_entry cfg w e s)) = sends (trace s) @ evs
           \<and> (if returns (fst (format_message cfg w e s)) then entry_sends l evs else evs = [])
           \<and> sent_entries (process_entry cfg w e s) =
               (if evs \<noteq> [] \<and> is_ok_send (last evs) then insert l (sent_entries s)
                else sent_entries s)"
    using process_entry_new_sets by blast
next
  assume l: "l \<in> sent_entries s"
  from rss_loop_keeps [OF this, of cfg w n]
  have k: "keeps l s (snd (rss_loop cfg w n s))" .
  show "l \<in> sent_entries (snd (rss_loop cfg w n s))" using k by (simp add: keeps_def)
  show "count_list (send_links (trace (snd (rss_loop cfg w n s)))) l
            = count_list (send_links (trace s)) l" using k by (simp add: keeps_def)
next
  assume l: "l \<in> sent_entries s"
  from runs_keeps [OF this, of cfg rs]
  have k: "keeps l s (runs cfg rs s)" .
  show "l \<in> sent_entries (runs cfg rs s)" using k by (simp add: keeps_def)
  show "count_list (send_links (trace (runs cfg rs s))) l = count_list (send_links (trace s)) l"
    using k by (simp add: keeps_def)
qed

text \<open>
  The theorem at concrete inputs: an entry whose link has been recorded is skipped, a new
  entry gets the publish calls of one entry, a new entry whose formatting raises gets
  none and is not recorded, and neither two iterations over a feed that still holds the
  recorded entry nor the runs of two workers, one after the other, make a publish call
  for it.
\<close>

theorem sent_entries_not_sent_again_witness:
  "(\<exists>l'. link (entry_of ''e1'') = Some l' \<and> l' \<in> sent_entries already_sent_state)
   \<and> process_entry plain_config three_entries_world (entry_of ''e1'') already_sent_state
       = already_sent_state
   \<and> link (entry_of ''a'') = Some (ascii ''a'') \<and> ascii ''a'' \<notin> sent_entries init_state
   \<and> returns (fst (format_message plain_config quiet_world (entry_of ''a'') init_state))
   \<and> (\<exists>evs. sends (trace (process_entry plain_config quiet_world (entry_of ''a'') init_state)) = evs
          \<and> entry_sends (ascii ''a'') evs)
   \<and> \<not> returns (fst (format_message yagpt_config (array_reply_world (replicate 20 65) 501)
                         (entry_of ''a'') init_state))
   \<and> sends (trace (process_entry yagpt_config (array_reply_world (replicate 20 65) 501)
                      (entry_of ''a'') init_state)) = []
   \<and> sent_entries (process_entry yagpt_config (array_reply_world (replicate 20 65) 501)
                      (entry_of ''a'') init_state) = {}
   \<and> ascii ''e1'' \<in> sent_entries already_sent_state
   \<and> count_list (send_links
         (trace (snd (rss_loop plain_config three_entries_world 2 already_sent_state))))
         (ascii ''e1'') = 0
   \<and> count_list (send_links
         (trace (runs plain_config
                   [(stats init_state, three_entries_world, 2),
                    (stats init_state, three_entries_world, 1)] already_sent_state)))
         (ascii ''e1'') = 0"
  using sent_entries_not_sent_again
          [of "entry_of ''e1''" already_sent_state plain_config three_entries_world
              "ascii ''e1''" 2
              "[(stats init_state, three_entries_world, 2),
                (stats init_state, three_entries_world, 1)]"]
        sent_entries_not_sent_again
          [of "entry_of ''a''" init_state plain_config quiet_world "ascii ''a''" 0 "[]"]
        sent_entries_not_sent_again
          [of "entry_of ''a''" init_state yagpt_config
              "array_reply_world (replicate 20 65) 501" "ascii ''a''" 0 "[]"]
        format_message_returns [of plain_config quiet_world "entry_of ''a''" init_state]
        format_message_long_array [of "entry_of ''a''" init_state]
  by (auto simp: entry_of_facts plain_config_disabled returns_def)

text \<open>
  Claim C1 as stated fails, counting as the claim counts: when the photo call raises, the
  handler sends the text, so the processing of one entry makes two publish calls for the
  same link.
\<close>

theorem photo_and_text_for_one_entry:
  "send_links (trace (process_entry plain_config photo_fails_world (entry_of ''a'') init_state))
     = [ascii ''a'', ascii ''a'']"
proof -
  have fm: "format_message plain_config photo_fails_world (entry_of ''a'') init_state =
      (Inr (message_of (ascii ''T'') (shorten (ascii ''D'')) (ascii ''a''), Some (ascii ''p.jpg'')),
       logger INFO (ascii ''Image generated: '' @ ascii ''p.jpg'')
         (inc_images_generated (ext photo_fails_world init_state)))"
    by (simp add: format_message_eq entry_of_facts enhance_step_disabled photo_fails_facts
        image_step_rendered)
  have "link (entry_of ''a'') = Some (ascii ''a'')" "ascii ''a'' \<notin> sent_entries init_state"
    by (simp_all add: entry_of_facts)
  from process_entry_eq [OF this, of plain_config photo_fails_world]
  show ?thesis
    by (simp add: process_new_entry_def fm publish_def send_with_photo_def photo_fallback_def
        bot_send_message_def photo_fails_facts Let_def)
qed

text \<open>
  Two workers that are alive at once share the set of sent entries, and nothing but the
  test of the link guards the block that publishes. When both have made the test for the
  same new link before either has recorded it, the first publishes and records the link,
  and the second, which is past the test, publishes it again although it is now in the
  set. Here both workers are at the entry with the link \<open>a\<close> in the initial state; the
  blocks run one after the other.
\<close>

lemma two_workers_publish_one_link_twice:
  "ascii ''a'' \<notin> sent_entries init_state
   \<and> ascii ''a'' \<in> sent_entries
        (process_new_entry plain_config quiet_world (entry_of ''a'') (ascii ''a'') init_state)
   \<and> send_links (trace
        (process_new_entry plain_config quiet_world (entry_of ''a'') (ascii ''a'')
           (process_new_entry plain_config quiet_world (entry_of ''a'') (ascii ''a'') init_state)))
       = [ascii ''a'', ascii ''a'']"
proof -
  let ?w = quiet_world
  have w: "render_image ?w n t = Inl (Exception (ascii ''no font''))"
    "send_message ?w n c m = None" for n t c m
    by (simp_all add: quiet_world_def)
  have fm: "format_message plain_config ?w (entry_of ''a'') s =
      (Inr (message_of (ascii ''T'') (shorten (ascii ''D'')) (ascii ''a''), None),
       logger WARNING (ascii ''Image generation returned no path'')
         (logger ERROR (ascii ''Image generation failed: '' @ ascii ''no font'') (ext ?w s)))"
    for s
    by (simp add: format_message_eq entry_of_facts enhance_step_disabled plain_config_disabled
        w image_step_failed)
  have pn: "process_new_entry plain_config ?w (entry_of ''a'') (ascii ''a'') s =
      time_sleep 3 (logger INFO (ascii ''Posted: '' @ ascii ''a'')
        ((emit (SendMessage (ascii ''a'')
                  (message_of (ascii ''T'') (shorten (ascii ''D'')) (ascii ''a'')) True)
            (ext ?w (logger WARNING (ascii ''Image generation returned no path'')
               (logger ERROR (ascii ''Image generation failed: '' @ ascii ''no font'')
                  (ext ?w s)))))
         \<lparr>sent_entries := insert (ascii ''a'') (sent_entries s),
           stats := (stats s)\<lparr>posts_sent := posts_sent (stats s) + 1,
                                last_post := Some (now s + latency ?w (calls s)
                                                   + latency ?w (Suc (calls s)))\<rparr>\<rparr>))"
    for s
    by (simp add: process_new_entry_def fm publish_def bot_send_message_def w Let_def)
  show ?thesis by (simp add: pn)
qed

section \<open>Claims about the sources of a cycle\<close>



text \<open>
  Claim C9, as the code has it. When a fetch yields no entries and the stop event is not
  set, the worker logs a warning with the address of the source, leaves \<open>errors\<close> and the
  set of sent entries as they are, and goes on with the remaining sources.
\<close>

theorem empty_feed_is_a_warning:
  assumes "feedparser_parse w (calls s) url = Inr []" and "\<not> stop_is_set w (now s)"
  shows "sweep cfg w (url # urls) s = sweep cfg w urls (process_source cfg w url s)
    \<and> trace (process_source cfg w url s) = trace s @ [Log WARNING (ascii ''Empty feed: '' @ url)]
    \<and> errors (stats (process_source cfg w url s)) = errors (stats s)
    \<and> sent_entries (process_source cfg w url s) = sent_entries s"
  using assms by (simp add: process_source_empty)

text \<open>The theorem at the world whose feeds are empty.\<close>

theorem empty_feed_is_a_warning_witness:
  "feedparser_parse quiet_world (calls init_state) (ascii ''u1'') = Inr []
   \<and> \<not> stop_is_set quiet_world (now init_state)
   \<and> sweep plain_config quiet_world [ascii ''u1'', ascii ''u2''] init_state
       = sweep plain_config quiet_world [ascii ''u2'']
           (process_source plain_config quiet_world (ascii ''u1'') init_state)
   \<and> trace (process_source plain_config quiet_world (ascii ''u1'') init_state)
       = [Log WARNING (ascii ''Empty feed: '' @ ascii ''u1'')]"
  using empty_feed_is_a_warning [of quiet_world init_state "ascii ''u1''" plain_config "[ascii ''u2'']"]
  by (simp add: quiet_world_facts)

text \<open>
  Claim C9 as stated fails: after a sweep over one source whose feed is empty, \<open>errors\<close>
  is still zero.
\<close>

theorem empty_feed_not_counted:
  "feedparser_parse quiet_world (calls init_state) (ascii ''u1'') = Inr []
   \<and> errors (stats (sweep plain_config quiet_world [ascii ''u1''] init_state)) = 0
   \<and> errors (stats init_state) = 0"
  by (simp add: quiet_world_facts process_source_empty)

section \<open>Claims about the suspension points\<close>

text \<open>
  Claim C8, as the code has it. The wait between two cycles, which begins when the
  sources have been visited, is a wait on the stop event:
  it ends no later than the check interval after it began, it ends no later than any
  instant from its beginning on at which the stop event is set, and when it ends before
  the interval has passed the stop event is set. The cooldown after a failure of the
  iteration is a sleep of 30 and the delay after a post is a sleep of 3: both last their
  full time whatever the stop event.
\<close>

theorem wait_is_interruptible_sleeps_are_not:
  "(loop_fault w (calls s) = None \<longrightarrow>
      now (visit_sources cfg w (ext w (record_check s))) \<le> now (cycle cfg w s)
      \<and> now (cycle cfg w s)
           \<le> now (visit_sources cfg w (ext w (record_check s))) + nat (CHECK_INTERVAL cfg)
      \<and> (\<forall>\<tau>. now (visit_sources cfg w (ext w (record_check s))) \<le> \<tau> \<and> stop_is_set w \<tau>
             \<longrightarrow> now (cycle cfg w s) \<le> \<tau>)
      \<and> (now (cycle cfg w s)
             < now (visit_sources cfg w (ext w (record_check s))) + nat (CHECK_INTERVAL cfg)
             \<longrightarrow> stop_is_set w (now (cycle cfg w s))))
   \<and> (loop_fault w (calls s) = Some ex \<longrightarrow>
        now (cycle cfg w s) = now s + latency w (calls s) + 30
        \<and> last (trace (cycle cfg w s)) = Sleep 30)
   \<and> (link e = Some l \<and> l \<notin> sent_entries s \<and> l \<in> sent_entries (process_entry cfg w e s)
        \<longrightarrow> last (trace (process_entry cfg w e s)) = Sleep 3)"
proof (intro conjI impI allI)
  assume n: "loop_fault w (calls s) = None"
  let ?t = "now (visit_sources cfg w (ext w (record_check s)))"
  show "?t \<le> now (cycle cfg w s)"
    using event_wait_bounds by (simp add: now_cycle_wait [OF n])
  show "now (cycle cfg w s) \<le> ?t + nat (CHECK_INTERVAL cfg)"
    using event_wait_bounds by (simp add: now_cycle_wait [OF n])
  show "now (cycle cfg w s) \<le> \<tau>" if "?t \<le> \<tau> \<and> stop_is_set w \<tau>" for \<tau>
    using that event_wait_early [of ?t \<tau> "stop_is_set w"] by (simp add: now_cycle_wait [OF n])
  show "stop_is_set w (now (cycle cfg w s))"
    if "now (cycle cfg w s) < ?t + nat (CHECK_INTERVAL cfg)"
    using that event_wait_before_timeout [of "stop_is_set w" "nat (CHECK_INTERVAL cfg)" ?t]
    by (simp add: now_cycle_wait [OF n])
next
  assume f: "loop_fault w (calls s) = Some ex"
  show "now (cycle cfg w s) = now s + latency w (calls s) + 30"
    using f by (rule now_cycle_cooldown)
  show "last (trace (cycle cfg w s)) = Sleep 30"
    using f by (simp add: cycle_def)
next
  assume "link e = Some l \<and> l \<notin> sent_entries s \<and> l \<in> sent_entries (process_entry cfg w e s)"
  then show "last (trace (process_entry cfg w e s)) = Sleep 3"
    using recorded_ends_with_sleep by blast
qed

text \<open>
  The theorem at three worlds: the stop event set at time 5 ends the wait of 300 by time 5,
  the cooldown of a failing iteration lasts 30, and a recorded post ends with the sleep
  of 3.
\<close>

theorem wait_is_interruptible_sleeps_are_not_witness:
  "loop_fault stop_at_5_world (calls init_state) = None
   \<and> stop_is_set stop_at_5_world 5
   \<and> now (cycle plain_config stop_at_5_world init_state) \<le> 5
   \<and> loop_fault faulty_world (calls init_state) = Some (Exception (ascii ''boom''))
   \<and> now (cycle plain_config faulty_world init_state) = 30
   \<and> link (entry_of ''a'') = Some (ascii ''a'') \<and> ascii ''a'' \<notin> sent_entries init_state
   \<and> ascii ''a'' \<in> sent_entries (process_entry plain_config quiet_world (entry_of ''a'') init_state)
   \<and> last (trace (process_entry plain_config quiet_world (entry_of ''a'') init_state)) = Sleep 3"
proof -
  have a: "ascii ''a'' \<in> sent_entries (process_entry plain_config quiet_world (entry_of ''a'') init_state)"
    using process_entry_success(2) [of "entry_of ''a''" "ascii ''a''" init_state quiet_world plain_config]
      format_message_returns [of plain_config quiet_world "entry_of ''a''" init_state]
    by (simp add: entry_of_facts quiet_world_facts plain_config_disabled)
  show ?thesis
    using wait_is_interruptible_sleeps_are_not
        [of stop_at_5_world init_state plain_config "Exception (ascii ''boom'')"
            "entry_of ''a''" "ascii ''a''"]
      wait_is_interruptible_sleeps_are_not
        [of faulty_world init_state plain_config "Exception (ascii ''boom'')"
            "entry_of ''a''" "ascii ''a''"]
      wait_is_interruptible_sleeps_are_not
        [of quiet_world init_state plain_config "Exception (ascii ''boom'')"
            "entry_of ''a''" "ascii ''a''"]
      a
    by (simp add: stop_at_5_facts faulty_facts now_visit_stop_at_5 entry_of_facts)
qed

text \<open>
  Claim C8 as stated fails for the cooldown: the stop event is set from time 1 on, and the
  iteration that failed at time 0 comes back at time 30.
\<close>

theorem cooldown_ignores_stop:
  "stop_is_set faulty_world 1
   \<and> now init_state = 0
   \<and> now (cycle plain_config faulty_world init_state) = 30"
  by (simp add: faulty_facts now_cycle_cooldown)

section \<open>Claims about the order of publication\<close>



section \<open>Claims about the formatting of an entry\<close>

text \<open>
  Claim C6. For every candidate \<open>en\<close> that \<open>enhance_with_yagpt\<close> returns, with the lengths
  as \<open>len\<close> gives them: when the title has no length strictly between 10 and 120 or the
  description has no length strictly between 30 and 600, the candidate is rejected, the
  message is the one built from the original title and description and \<open>yagpt_used\<close> is
  unchanged; when both lengths are in their intervals, \<open>yagpt_used\<close> is incremented and
  the message is built from the title and the description of the candidate, if it is
  built at all (the shortening and the last statement can raise for a candidate that is
  not a string). For a candidate made of two strings the message is given in full.
\<close>

theorem candidate_validation:
  assumes "enhance_with_yagpt cfg w (original_title e) (original_description e) s = (Some en, s1)"
  shows "(\<not> (\<exists>lt ld. py_len (new_title en) = Inr lt \<and> py_len (new_description en) = Inr ld
                  \<and> 10 < lt \<and> lt < 120 \<and> 30 < ld \<and> ld < 600)
          \<longrightarrow> message_part (fst (format_message cfg w e s)) = Inr (original_message e)
              \<and> yagpt_used (stats (snd (format_message cfg w e s))) = yagpt_used (stats s))
     \<and> ((\<exists>lt ld. py_len (new_title en) = Inr lt \<and> py_len (new_description en) = Inr ld
                  \<and> 10 < lt \<and> lt < 120 \<and> 30 < ld \<and> ld < 600)
          \<longrightarrow> message_part (fst (format_message cfg w e s))
                = (case shorten_value (new_description en) of
                     Inl ex \<Rightarrow> Inl ex
                   | Inr v \<Rightarrow> message_text w (new_title en) v (link_or_empty e))
              \<and> yagpt_used (stats (snd (format_message cfg w e s))) = yagpt_used (stats s) + 1)
     \<and> (\<forall>nt nd. new_title en = JStr nt \<and> new_description en = JStr nd
            \<and> 10 < length nt \<and> length nt < 120 \<and> 30 < length nd \<and> length nd < 600
          \<longrightarrow> message_part (fst (format_message cfg w e s))
                = Inr (message_of nt (shorten nd) (link_or_empty e))
              \<and> yagpt_used (stats (snd (format_message cfg w e s))) = yagpt_used (stats s) + 1)
     \<and> (\<forall>nt nd. new_title en = JStr nt \<and> new_description en = JStr nd
            \<and> (\<not> (10 < length nt \<and> length nt < 120) \<or> \<not> (30 < length nd \<and> length nd < 600))
          \<longrightarrow> message_part (fst (format_message cfg w e s)) = Inr (original_message e)
              \<and> yagpt_used (stats (snd (format_message cfg w e s))) = yagpt_used (stats s))"
proof -
  let ?ok = "\<exists>lt ld. py_len (new_title en) = Inr lt \<and> py_len (new_description en) = Inr ld
                  \<and> 10 < lt \<and> lt < 120 \<and> 30 < ld \<and> ld < 600"
  have rejected: "message_part (fst (format_message cfg w e s)) = Inr (original_message e)
      \<and> yagpt_used (stats (snd (format_message cfg w e s))) = yagpt_used (stats s)"
    if "\<not> ?ok"
  proof (cases "validate (new_title en) (new_description en)")
    case (Inl ex)
    from format_message_type_error(1,2) [OF assms Inl] show ?thesis by simp
  next
    case (Inr b)
    with that have "validate (new_title en) (new_description en) = Inr False"
      using validate_accepts [of "new_title en" "new_description en"] by auto
    from format_message_rejected(1,2) [OF assms this] show ?thesis by simp
  qed
  have accepted: "message_part (fst (format_message cfg w e s))
                = (case shorten_value (new_description en) of
                     Inl ex \<Rightarrow> Inl ex
                   | Inr v \<Rightarrow> message_text w (new_title en) v (link_or_empty e))
      \<and> yagpt_used (stats (snd (format_message cfg w e s))) = yagpt_used (stats s) + 1"
    if "?ok"
  proof -
    from that have "validate (new_title en) (new_description en) = Inr True"
      by (simp add: validate_accepts)
    from format_message_accepted(1,2) [OF assms this] show ?thesis by simp
  qed
  have texts_in: "message_part (fst (format_message cfg w e s))
                = Inr (message_of nt (shorten nd) (link_or_empty e))
      \<and> yagpt_used (stats (snd (format_message cfg w e s))) = yagpt_used (stats s) + 1"
    if "new_title en = JStr nt \<and> new_description en = JStr nd
        \<and> 10 < length nt \<and> length nt < 120 \<and> 30 < length nd \<and> length nd < 600" for nt nd
  proof -
    from that have "?ok" by simp
    from accepted [OF this] that show ?thesis by simp
  qed
  have texts_out: "message_part (fst (format_message cfg w e s)) = Inr (original_message e)
      \<and> yagpt_used (stats (snd (format_message cfg w e s))) = yagpt_used (stats s)"
    if "new_title en = JStr nt \<and> new_description en = JStr nd
        \<and> (\<not> (10 < length nt \<and> length nt < 120) \<or> \<not> (30 < length nd \<and> length nd < 600))"
    for nt nd
  proof -
    from that have "\<not> ?ok" by auto
    from rejected [OF this] show ?thesis .
  qed
  show ?thesis
    using rejected accepted texts_in texts_out by blast
qed

text \<open>
  The theorem at a language model that answers with a title of length 5: the message is
  the original one and \<open>yagpt_used\<close> stays 0. With a title of length 20 and a description
  of length 40 the message is built from them and the counter becomes 1; with the same
  title and a description that is an array of 40 numbers the message holds the text of
  the array and the counter becomes 1 as well.
\<close>

theorem candidate_validation_witness:
  "enhance_with_yagpt yagpt_config (text_reply_world (ascii ''Short'') (replicate 40 120))
       (original_title (entry_of ''a'')) (original_description (entry_of ''a'')) init_state
     = (Some \<lparr>new_title = JStr (ascii ''Short''), new_description = JStr (replicate 40 120)\<rparr>,
        ext (text_reply_world (ascii ''Short'') (replicate 40 120)) init_state)
   \<and> length (ascii ''Short'') = 5
   \<and> message_part (fst (format_message yagpt_config
        (text_reply_world (ascii ''Short'') (replicate 40 120)) (entry_of ''a'') init_state))
       = Inr (original_message (entry_of ''a''))
   \<and> yagpt_used (stats (snd (format_message yagpt_config
        (text_reply_world (ascii ''Short'') (replicate 40 120)) (entry_of ''a'') init_state)))
       = 0
   \<and> message_part (fst (format_message yagpt_config
        (text_reply_world (replicate 20 65) (replicate 40 120)) (entry_of ''a'') init_state))
       = Inr (message_of (replicate 20 65) (replicate 40 120) (ascii ''a''))
   \<and> yagpt_used (stats (snd (format_message yagpt_config
        (text_reply_world (replicate 20 65) (replicate 40 120)) (entry_of ''a'') init_state)))
       = 1
   \<and> py_len (JArr (replicate 40 (JNum 0))) = Inr 40
   \<and> message_part (fst (format_message yagpt_config
        (array_reply_world (replicate 20 65) 40) (entry_of ''a'') init_state))
       = Inr (message_of (replicate 20 65) (zeros_text 40) (ascii ''a''))
   \<and> yagpt_used (stats (snd (format_message yagpt_config
        (array_reply_world (replicate 20 65) 40) (entry_of ''a'') init_state)))
       = 1"
  using candidate_validation [OF text_reply_world_enhance
          [of "ascii ''Short''" "replicate 40 120" "original_title (entry_of ''a'')"
              "original_description (entry_of ''a'')" init_state]]
        candidate_validation [OF text_reply_world_enhance
          [of "replicate 20 65" "replicate 40 120" "original_title (entry_of ''a'')"
              "original_description (entry_of ''a'')" init_state]]
        candidate_validation [OF array_reply_world_enhance
          [of "replicate 20 65" 40 "original_title (entry_of ''a'')"
              "original_description (entry_of ''a'')" init_state]]
  by (simp add: text_reply_world_enhance ascii_def shorten_def entry_of_facts shorten_value_def
      message_text_def array_reply_world_repr)

text \<open>
  Claim C7, as the code has it. Every failure of the enhancement falls back to the
  original text and leaves \<open>yagpt_used\<close> unchanged: when the request raises (a
  \<open>RequestException\<close> or any other exception), or the decoder raises anything but a
  \<open>JSONDecodeError\<close>, \<open>yagpt_errors\<close> is incremented; when \<open>enhance_with_yagpt\<close> returns
  nothing, for whatever reason, the message is the original one; when the candidate fails
  the validation, the message is the original one, a warning is logged and \<open>yagpt_errors\<close>
  is unchanged; when the validation itself raises, \<open>yagpt_errors\<close> is incremented.
\<close>

theorem enhancement_failure_falls_back:
  "(yagpt_enabled cfg
      \<and> (requests_post w (calls s) (original_title e) (shorten_input (original_description e))
            = RequestException m
         \<or> requests_post w (calls s) (original_title e) (shorten_input (original_description e))
            = OtherException m)
     \<longrightarrow> message_part (fst (format_message cfg w e s)) = Inr (original_message e)
         \<and> yagpt_errors (stats (snd (format_message cfg w e s))) = yagpt_errors (stats s) + 1
         \<and> yagpt_used (stats (snd (format_message cfg w e s))) = yagpt_used (stats s))
   \<and> (\<forall>s1. enhance_with_yagpt cfg w (original_title e) (original_description e) s = (None, s1)
         \<longrightarrow> message_part (fst (format_message cfg w e s)) = Inr (original_message e)
             \<and> yagpt_used (stats (snd (format_message cfg w e s))) = yagpt_used (stats s))
   \<and> (\<forall>en s1. enhance_with_yagpt cfg w (original_title e) (original_description e) s
                  = (Some en, s1)
               \<and> validate (new_title en) (new_description en) = Inr False
         \<longrightarrow> message_part (fst (format_message cfg w e s)) = Inr (original_message e)
             \<and> yagpt_errors (stats (snd (format_message cfg w e s))) = yagpt_errors (stats s)
             \<and> yagpt_used (stats (snd (format_message cfg w e s))) = yagpt_used (stats s)
             \<and> (\<exists>evs. trace (snd (format_message cfg w e s))
                   = trace s @ [Log WARNING (ascii ''YandexGPT output validation failed'')] @ evs))
   \<and> (\<forall>en s1 ex. enhance_with_yagpt cfg w (original_title e) (original_description e) s
                  = (Some en, s1)
               \<and> validate (new_title en) (new_description en) = Inl ex
         \<longrightarrow> message_part (fst (format_message cfg w e s)) = Inr (original_message e)
             \<and> yagpt_errors (stats (snd (format_message cfg w e s))) = yagpt_errors (stats s) + 1
             \<and> yagpt_used (stats (snd (format_message cfg w e s))) = yagpt_used (stats s))
   \<and> (\<forall>rt ex. yagpt_enabled cfg
               \<and> requests_post w (calls s) (original_title e)
                    (shorten_input (original_description e)) = ResponseText rt
               \<and> 123 \<in> set rt \<and> 125 \<in> set rt
               \<and> json_loads w (json_slice rt) = DecodeRaises ex
         \<longrightarrow> message_part (fst (format_message cfg w e s)) = Inr (original_message e)
             \<and> yagpt_errors (stats (snd (format_message cfg w e s))) = yagpt_errors (stats s) + 1
             \<and> yagpt_used (stats (snd (format_message cfg w e s))) = yagpt_used (stats s))"
proof (intro conjI allI impI)
  assume h: "yagpt_enabled cfg
      \<and> (requests_post w (calls s) (original_title e) (shorten_input (original_description e))
            = RequestException m
         \<or> requests_post w (calls s) (original_title e) (shorten_input (original_description e))
            = OtherException m)"
  then obtain s1 where s1:
    "enhance_with_yagpt cfg w (original_title e) (original_description e) s = (None, s1)"
    "yagpt_errors (stats s1) = yagpt_errors (stats s) + 1"
    using enhance_with_yagpt_raises [of cfg w s "original_title e" "original_description e" m]
    by auto
  show "message_part (fst (format_message cfg w e s)) = Inr (original_message e)"
    using format_message_absent(1) [OF s1(1)] .
  show "yagpt_errors (stats (snd (format_message cfg w e s))) = yagpt_errors (stats s) + 1"
    using format_message_absent(3) [OF s1(1)] s1(2) by simp
  show "yagpt_used (stats (snd (format_message cfg w e s))) = yagpt_used (stats s)"
    using format_message_absent(2) [OF s1(1)] .
next
  fix s1
  assume h: "enhance_with_yagpt cfg w (original_title e) (original_description e) s = (None, s1)"
  show "message_part (fst (format_message cfg w e s)) = Inr (original_message e)"
    using format_message_absent(1) [OF h] .
  show "yagpt_used (stats (snd (format_message cfg w e s))) = yagpt_used (stats s)"
    using format_message_absent(2) [OF h] .
next
  fix en s1
  assume h: "enhance_with_yagpt cfg w (original_title e) (original_description e) s = (Some en, s1)
               \<and> validate (new_title en) (new_description en) = Inr False"
  then have a: "enhance_with_yagpt cfg w (original_title e) (original_description e) s = (Some en, s1)"
    and v: "validate (new_title en) (new_description en) = Inr False" by simp_all
  show "message_part (fst (format_message cfg w e s)) = Inr (original_message e)"
    using format_message_rejected(1) [OF a v] .
  show "yagpt_errors (stats (snd (format_message cfg w e s))) = yagpt_errors (stats s)"
    using format_message_rejected(3) [OF a v] .
  show "yagpt_used (stats (snd (format_message cfg w e s))) = yagpt_used (stats s)"
    using format_message_rejected(2) [OF a v] .
  show "\<exists>evs. trace (snd (format_message cfg w e s))
          = trace s @ [Log WARNING (ascii ''YandexGPT output validation failed'')] @ evs"
    using format_message_rejected_log [OF a v] .
next
  fix en s1 ex
  assume h: "enhance_with_yagpt cfg w (original_title e) (original_description e) s = (Some en, s1)
               \<and> validate (new_title en) (new_description en) = Inl ex"
  then have a: "enhance_with_yagpt cfg w (original_title e) (original_description e) s = (Some en, s1)"
    and v: "validate (new_title en) (new_description en) = Inl ex" by simp_all
  show "message_part (fst (format_message cfg w e s)) = Inr (original_message e)"
    using format_message_type_error(1) [OF a v] .
  show "yagpt_errors (stats (snd (format_message cfg w e s))) = yagpt_errors (stats s) + 1"
    using format_message_type_error(3) [OF a v] .
  show "yagpt_used (stats (snd (format_message cfg w e s))) = yagpt_used (stats s)"
    using format_message_type_error(2) [OF a v] .
next
  fix rt ex
  assume h: "yagpt_enabled cfg
               \<and> requests_post w (calls s) (original_title e)
                    (shorten_input (original_description e)) = ResponseText rt
               \<and> 123 \<in> set rt \<and> 125 \<in> set rt
               \<and> json_loads w (json_slice rt) = DecodeRaises ex"
  then obtain s1 where s1:
    "enhance_with_yagpt cfg w (original_title e) (original_description e) s = (None, s1)"
    "yagpt_errors (stats s1) = yagpt_errors (stats s) + 1"
    using enhance_with_yagpt_decoder_raises
            [of cfg w s "original_title e" "original_description e" rt ex]
    by auto
  show "message_part (fst (format_message cfg w e s)) = Inr (original_message e)"
    using format_message_absent(1) [OF s1(1)] .
  show "yagpt_errors (stats (snd (format_message cfg w e s))) = yagpt_errors (stats s) + 1"
    using format_message_absent(3) [OF s1(1)] s1(2) by simp
  show "yagpt_used (stats (snd (format_message cfg w e s))) = yagpt_used (stats s)"
    using format_message_absent(2) [OF s1(1)] .
qed

text \<open>
  The theorem at a request that times out, which is counted, and at a candidate with a
  title of length 5, which is rejected.
\<close>

theorem enhancement_failure_falls_back_witness:
  "yagpt_enabled yagpt_config
   \<and> requests_post quiet_world (calls init_state) (original_title (entry_of ''a''))
        (shorten_input (original_description (entry_of ''a''))) = RequestException (ascii ''timeout'')
   \<and> message_part (fst (format_message yagpt_config quiet_world (entry_of ''a'') init_state))
       = Inr (original_message (entry_of ''a''))
   \<and> yagpt_errors (stats (snd (format_message yagpt_config quiet_world (entry_of ''a'') init_state)))
       = 1
   \<and> validate (JStr (ascii ''Short'')) (JStr (replicate 40 120)) = Inr False
   \<and> yagpt_used (stats (snd (format_message yagpt_config
        (text_reply_world (ascii ''Short'') (replicate 40 120)) (entry_of ''a'') init_state))) = 0"
  using enhancement_failure_falls_back
          [of yagpt_config quiet_world init_state "entry_of ''a''" "ascii ''timeout''"]
        enhancement_failure_falls_back
          [of yagpt_config "text_reply_world (ascii ''Short'') (replicate 40 120)" init_state
              "entry_of ''a''" "ascii ''timeout''"]
  by (simp add: yagpt_config_enabled quiet_world_def text_reply_world_enhance validate_short_title)

text \<open>
  Claim C7 as stated fails for a validation rejection: the candidate with a title of
  length 5 is rejected, the message is the original one, and \<open>yagpt_errors\<close> is still 0.
\<close>

theorem validation_rejection_not_counted:
  "validate (JStr (ascii ''Short'')) (JStr (replicate 40 120)) = Inr False
   \<and> message_part (fst (format_message yagpt_config
        (text_reply_world (ascii ''Short'') (replicate 40 120)) (entry_of ''a'') init_state))
       = Inr (original_message (entry_of ''a''))
   \<and> yagpt_errors (stats init_state) = 0
   \<and> yagpt_errors (stats (snd (format_message yagpt_config
        (text_reply_world (ascii ''Short'') (replicate 40 120)) (entry_of ''a'') init_state))) = 0"
  using format_message_rejected(1,3) [OF text_reply_world_enhance, of "ascii ''Short''"
      "replicate 40 120" "entry_of ''a''" init_state]
  by (simp add: validate_short_title)




end
